theory Spec2Isabelle
  imports Main "HOL-Library.Sublist"
begin

section \<open>JavaScript strings and JSON values\<close>

text \<open>
  The edge function \<^verbatim>\<open>supabase/functions/analyze-plant-disease/index.ts\<close> and the React
  components work on JavaScript strings, which are sequences of UTF-16 code units. A code
  unit is modelled as an integer (\<open>0 .. 0xFFFF\<close> in a real string, see \<open>is_jsstring\<close>)
  and a string as a list of code units, so that the localized text of a report (Kannada,
  Hindi, ...) is inside the model. \<open>js ''abc''\<close> is the JavaScript string with the code
  units of the ASCII literal \<open>abc\<close>.
\<close>

type_synonym jsstring = "int list"

abbreviation js :: "string \<Rightarrow> jsstring" where
  "js s \<equiv> map of_char s"

definition is_jsstring :: "jsstring \<Rightarrow> bool" where
  "is_jsstring s \<longleftrightarrow> list_all (\<lambda>c. 0 \<le> c \<and> c \<le> 0xFFFF) s"

abbreviation ch :: "char \<Rightarrow> int" where
  "ch c \<equiv> of_char c"

text \<open>
  A JSON value as \<^verbatim>\<open>JSON.parse\<close> builds it. A number is kept as the exact decimal it
  denotes: \<open>JNum m d\<close> is \<open>m / 10 ^ d\<close> with \<open>d\<close> as small as possible, so an integer
  \<open>n\<close> is \<open>JNum n 0\<close>. (Rounding to an IEEE double is not modelled; it is the identity on
  the integers the report uses.) An object is the list of its own properties in
  JavaScript's property order.
\<close>

datatype json =
    JNull
  | JBool bool
  | JNum int nat
  | JString jsstring
  | JArray "json list"
  | JObject "(jsstring \<times> json) list"

subsection \<open>Numbers\<close>

definition is_digit :: "int \<Rightarrow> bool" where
  "is_digit c \<longleftrightarrow> 0x30 \<le> c \<and> c \<le> 0x39"

definition digits_val :: "jsstring \<Rightarrow> int" where
  "digits_val ds = foldl (\<lambda>a c. 10 * a + (c - 0x30)) 0 ds"

fun norm_dec :: "int \<Rightarrow> nat \<Rightarrow> int \<times> nat" where
  "norm_dec m 0 = (m, 0)"
| "norm_dec m (Suc d) = (if m mod 10 = 0 then norm_dec (m div 10) d else (m, Suc d))"

text \<open>The value of a literal with sign, digits \<open>ds\<close> of which the last \<open>f\<close> follow the
  decimal point, and exponent \<open>ex\<close>.\<close>

definition mk_number :: "bool \<Rightarrow> jsstring \<Rightarrow> nat \<Rightarrow> int \<Rightarrow> json" where
  "mk_number neg ds f ex =
     (let M = (if neg then - digits_val ds else digits_val ds);
          e = ex - int f;
          (m, d) = (if 0 \<le> e then (M * 10 ^ nat e, 0) else norm_dec M (nat (- e)))
      in JNum m d)"

definition frac_part :: "jsstring \<Rightarrow> (jsstring \<times> jsstring) option" where
  "frac_part s =
     (case s of
        [] \<Rightarrow> Some ([], [])
      | c # r \<Rightarrow>
          if c = ch CHR ''.''
          then (if takeWhile is_digit r = [] then None
                else Some (takeWhile is_digit r, dropWhile is_digit r))
          else Some ([], s))"

definition exp_part :: "jsstring \<Rightarrow> (int \<times> jsstring) option" where
  "exp_part s =
     (case s of
        [] \<Rightarrow> Some (0, [])
      | c # r \<Rightarrow>
          if c = ch CHR ''e'' \<or> c = ch CHR ''E''
          then (let (eneg, r1) =
                      (case r of
                         [] \<Rightarrow> (False, r)
                       | g # r' \<Rightarrow>
                           if g = ch CHR ''-'' then (True, r')
                           else if g = ch CHR ''+'' then (False, r')
                           else (False, r))
                in if takeWhile is_digit r1 = [] then None
                   else Some ((if eneg then - digits_val (takeWhile is_digit r1)
                               else digits_val (takeWhile is_digit r1)),
                              dropWhile is_digit r1))
          else Some (0, s))"

definition int_part :: "jsstring \<Rightarrow> jsstring" where
  "int_part s =
     (case s of
        [] \<Rightarrow> []
      | c # r \<Rightarrow> if c = 0x30 then [c] else takeWhile is_digit s)"

definition parse_number :: "jsstring \<Rightarrow> (json \<times> jsstring) option" where
  "parse_number s =
     (let (neg, s1) =
            (case s of
               [] \<Rightarrow> (False, s)
             | c # r \<Rightarrow> if c = ch CHR ''-'' then (True, r) else (False, s));
          ip = int_part s1
      in if ip = [] then None
         else (case frac_part (drop (length ip) s1) of
                 None \<Rightarrow> None
               | Some (fp, s3) \<Rightarrow>
                   (case exp_part s3 of
                      None \<Rightarrow> None
                    | Some (ex, s4) \<Rightarrow> Some (mk_number neg (ip @ fp) (length fp) ex, s4))))"

subsection \<open>Strings\<close>

definition hex_val :: "int \<Rightarrow> int option" where
  "hex_val c =
     (if 0x30 \<le> c \<and> c \<le> 0x39 then Some (c - 0x30)
      else if 0x61 \<le> c \<and> c \<le> 0x66 then Some (c - 0x61 + 10)
      else if 0x41 \<le> c \<and> c \<le> 0x46 then Some (c - 0x41 + 10)
      else None)"

definition hex4_val :: "int \<Rightarrow> int \<Rightarrow> int \<Rightarrow> int \<Rightarrow> int option" where
  "hex4_val a b c d =
     (case (hex_val a, hex_val b, hex_val c, hex_val d) of
        (Some x, Some y, Some z, Some w) \<Rightarrow> Some (4096 * x + 256 * y + 16 * z + w)
      | _ \<Rightarrow> None)"

definition simple_escape :: "int \<Rightarrow> int option" where
  "simple_escape e =
     (if e = 0x22 then Some 0x22
      else if e = 0x5C then Some 0x5C
      else if e = ch CHR ''/'' then Some 0x2F
      else if e = ch CHR ''b'' then Some 0x08
      else if e = ch CHR ''f'' then Some 0x0C
      else if e = ch CHR ''n'' then Some 0x0A
      else if e = ch CHR ''r'' then Some 0x0D
      else if e = ch CHR ''t'' then Some 0x09
      else None)"

definition cons_result :: "int \<Rightarrow> (jsstring \<times> jsstring) option \<Rightarrow> (jsstring \<times> jsstring) option" where
  "cons_result c r = (case r of None \<Rightarrow> None | Some (s, rest) \<Rightarrow> Some (c # s, rest))"

text \<open>The characters of a string literal after its opening quote (0x22), up to and
  including the closing quote; the result is the string denoted and the text that follows.\<close>

fun parse_string_body :: "jsstring \<Rightarrow> (jsstring \<times> jsstring) option" where
  "parse_string_body [] = None"
| "parse_string_body (c # cs) =
     (if c = 0x22 then Some ([], cs)
      else if c = 0x5C then
        (case cs of
           [] \<Rightarrow> None
         | e # es \<Rightarrow>
             if e = ch CHR ''u'' then
               (case es of
                  h1 # h2 # h3 # h4 # r \<Rightarrow>
                    (case hex4_val h1 h2 h3 h4 of
                       None \<Rightarrow> None
                     | Some u \<Rightarrow> cons_result u (parse_string_body r))
                | _ \<Rightarrow> None)
             else
               (case simple_escape e of
                  None \<Rightarrow> None
                | Some u \<Rightarrow> cons_result u (parse_string_body es)))
      else if c < 0x20 then None
      else cons_result c (parse_string_body cs))"

subsection \<open>Objects: property order\<close>

text \<open>
  \<^verbatim>\<open>JSON.parse\<close> defines the members of an object one after the other. A repeated key
  overwrites the value and keeps its place; otherwise an array-index key (the canonical
  decimal of an integer below \<open>2^32 - 1\<close>) is placed among the index keys in ascending
  order, before all other keys, and any other key goes last.
\<close>

definition is_array_index :: "jsstring \<Rightarrow> bool" where
  "is_array_index k \<longleftrightarrow>
     k \<noteq> [] \<and> list_all is_digit k \<and> (k = [0x30] \<or> hd k \<noteq> 0x30) \<and> digits_val k < 4294967295"

fun insert_index :: "jsstring \<Rightarrow> json \<Rightarrow> (jsstring \<times> json) list \<Rightarrow> (jsstring \<times> json) list" where
  "insert_index k v [] = [(k, v)]"
| "insert_index k v ((k', v') # kvs) =
     (if is_array_index k' \<and> digits_val k' < digits_val k
      then (k', v') # insert_index k v kvs
      else (k, v) # (k', v') # kvs)"

fun overwrite :: "jsstring \<Rightarrow> json \<Rightarrow> (jsstring \<times> json) list \<Rightarrow> (jsstring \<times> json) list" where
  "overwrite k v [] = []"
| "overwrite k v ((k', v') # kvs) =
     (if k' = k then (k, v) # kvs else (k', v') # overwrite k v kvs)"

definition define_property :: "jsstring \<Rightarrow> json \<Rightarrow> (jsstring \<times> json) list \<Rightarrow> (jsstring \<times> json) list" where
  "define_property k v kvs =
     (if k \<in> set (map fst kvs) then overwrite k v kvs
      else if is_array_index k then insert_index k v kvs
      else kvs @ [(k, v)])"

subsection \<open>\<^verbatim>\<open>JSON.parse\<close>\<close>

definition is_json_ws :: "int \<Rightarrow> bool" where
  "is_json_ws c \<longleftrightarrow> c = 0x20 \<or> c = 0x09 \<or> c = 0x0A \<or> c = 0x0D"

definition skip_ws :: "jsstring \<Rightarrow> jsstring" where
  "skip_ws s = dropWhile is_json_ws s"

definition keyword :: "string \<Rightarrow> json \<Rightarrow> jsstring \<Rightarrow> (json \<times> jsstring) option" where
  "keyword w v s = (if take (length w) s = js w then Some (v, drop (length w) s) else None)"

text \<open>
  Recursive descent over the JSON grammar. The first argument bounds the number of nested
  calls; \<open>JSON_parse\<close> below starts with more than any text can use. \<open>parse_value\<close>
  expects a text that starts at the value; \<open>parse_elements\<close> and \<open>parse_members\<close> are
  at the first character of an array element or an object member, with the earlier ones
  already read.
\<close>

fun parse_value :: "nat \<Rightarrow> jsstring \<Rightarrow> (json \<times> jsstring) option"
  and parse_elements :: "nat \<Rightarrow> json list \<Rightarrow> jsstring \<Rightarrow> (json \<times> jsstring) option"
  and parse_members :: "nat \<Rightarrow> (jsstring \<times> json) list \<Rightarrow> jsstring \<Rightarrow> (json \<times> jsstring) option"
where
  "parse_value 0 s = None"
| "parse_value (Suc n) [] = None"
| "parse_value (Suc n) (c # cs) =
     (if c = ch CHR ''{'' then
        (case skip_ws cs of
           [] \<Rightarrow> None
         | d # ds \<Rightarrow> if d = ch CHR ''}'' then Some (JObject [], ds)
                     else parse_members n [] (d # ds))
      else if c = ch CHR ''['' then
        (case skip_ws cs of
           [] \<Rightarrow> None
         | d # ds \<Rightarrow> if d = ch CHR '']'' then Some (JArray [], ds)
                     else parse_elements n [] (d # ds))
      else if c = 0x22 then
        (case parse_string_body cs of
           None \<Rightarrow> None
         | Some (str, r) \<Rightarrow> Some (JString str, r))
      else if c = ch CHR ''t'' then keyword ''true'' (JBool True) (c # cs)
      else if c = ch CHR ''f'' then keyword ''false'' (JBool False) (c # cs)
      else if c = ch CHR ''n'' then keyword ''null'' JNull (c # cs)
      else if c = ch CHR ''-'' \<or> is_digit c then parse_number (c # cs)
      else None)"
| "parse_elements 0 acc s = None"
| "parse_elements (Suc n) acc s =
     (case parse_value n s of
        None \<Rightarrow> None
      | Some (v, r) \<Rightarrow>
          (case skip_ws r of
             [] \<Rightarrow> None
           | d # ds \<Rightarrow>
               if d = ch CHR '','' then parse_elements n (acc @ [v]) (skip_ws ds)
               else if d = ch CHR '']'' then Some (JArray (acc @ [v]), ds)
               else None))"
| "parse_members 0 acc s = None"
| "parse_members (Suc n) acc [] = None"
| "parse_members (Suc n) acc (q # s) =
     (if q \<noteq> 0x22 then None
      else
        (case parse_string_body s of
           None \<Rightarrow> None
         | Some (k, r) \<Rightarrow>
             (case skip_ws r of
                [] \<Rightarrow> None
              | colon # r1 \<Rightarrow>
                  if colon \<noteq> ch CHR '':'' then None
                  else
                    (case parse_value n (skip_ws r1) of
                       None \<Rightarrow> None
                     | Some (v, r2) \<Rightarrow>
                         (case skip_ws r2 of
                            [] \<Rightarrow> None
                          | d # ds \<Rightarrow>
                              if d = ch CHR '','' then
                                parse_members n (define_property k v acc) (skip_ws ds)
                              else if d = ch CHR ''}'' then
                                Some (JObject (define_property k v acc), ds)
                              else None)))))"

text \<open>\<^verbatim>\<open>JSON.parse(text)\<close>: \<open>None\<close> is the \<^verbatim>\<open>SyntaxError\<close> it throws.\<close>

definition JSON_parse :: "jsstring \<Rightarrow> json option" where
  "JSON_parse s =
     (case parse_value (2 * length s + 2) (skip_ws s) of
        None \<Rightarrow> None
      | Some (v, r) \<Rightarrow> if skip_ws r = [] then Some v else None)"

subsection \<open>\<^verbatim>\<open>JSON.stringify\<close>\<close>

text \<open>The decimal digits of a non-negative integer.\<close>

function digits_of :: "int \<Rightarrow> jsstring" where
  "digits_of n = (if n < 10 then [0x30 + n] else digits_of (n div 10) @ [0x30 + n mod 10])"
  by pat_completeness auto
termination
  by (relation "measure nat") auto

declare digits_of.simps [simp del]

definition strip_zeros :: "jsstring \<Rightarrow> jsstring" where
  "strip_zeros ds = rev (dropWhile (\<lambda>c. c = 0x30) (rev ds))"

text \<open>
  \<^verbatim>\<open>Number::toString\<close> of ECMAScript on the decimal \<open>m / 10 ^ d\<close>: with \<open>S\<close> the
  significant digits, \<open>k\<close> their number and \<open>n\<close> the position of the decimal point,
  plain digits up to \<open>10^21\<close>, a leading \<open>0.\<close> down to \<open>10^-6\<close>, and the exponent
  form outside.
\<close>

definition number_to_string :: "int \<Rightarrow> nat \<Rightarrow> jsstring" where
  "number_to_string m d =
     (if m = 0 then js ''0''
      else
        (let D = digits_of \<bar>m\<bar>;
             S = strip_zeros D;
             k = length S;
             n = int (length D) - int d;
             body =
               (if int k \<le> n \<and> n \<le> 21 then S @ replicate (nat n - k) 0x30
                else if 0 < n \<and> n \<le> 21 then take (nat n) S @ js ''.'' @ drop (nat n) S
                else if - 6 < n \<and> n \<le> 0 then js ''0.'' @ replicate (nat (- n)) 0x30 @ S
                else
                  (let e = n - 1;
                       es = (if e < 0 then js ''-'' else js ''+'') @ digits_of \<bar>e\<bar>
                   in if k = 1 then S @ js ''e'' @ es
                      else take 1 S @ js ''.'' @ drop 1 S @ js ''e'' @ es))
         in (if m < 0 then js ''-'' else []) @ body))"

definition hex_digit :: "int \<Rightarrow> int" where
  "hex_digit n = (if n < 10 then 0x30 + n else 0x61 + (n - 10))"

definition unicode_escape :: "int \<Rightarrow> jsstring" where
  "unicode_escape c =
     [0x5C, ch CHR ''u'', hex_digit (c div 4096 mod 16), hex_digit (c div 256 mod 16),
      hex_digit (c div 16 mod 16), hex_digit (c mod 16)]"

definition is_high_surrogate :: "int \<Rightarrow> bool" where
  "is_high_surrogate c \<longleftrightarrow> 0xD800 \<le> c \<and> c \<le> 0xDBFF"

definition is_low_surrogate :: "int \<Rightarrow> bool" where
  "is_low_surrogate c \<longleftrightarrow> 0xDC00 \<le> c \<and> c \<le> 0xDFFF"

text \<open>\<^verbatim>\<open>QuoteJSONString\<close>: the two-character escapes, \<^verbatim>\<open>\uXXXX\<close> for the other control
  characters and for a surrogate that is not part of a pair, everything else as it is.\<close>

definition quote_unit :: "int \<Rightarrow> jsstring" where
  "quote_unit c =
     (if c = 0x08 then [0x5C, ch CHR ''b'']
      else if c = 0x09 then [0x5C, ch CHR ''t'']
      else if c = 0x0A then [0x5C, ch CHR ''n'']
      else if c = 0x0C then [0x5C, ch CHR ''f'']
      else if c = 0x0D then [0x5C, ch CHR ''r'']
      else if c = 0x22 then [0x5C, 0x22]
      else if c = 0x5C then [0x5C, 0x5C]
      else if c < 0x20 \<or> is_high_surrogate c \<or> is_low_surrogate c then unicode_escape c
      else [c])"

fun quote_units :: "jsstring \<Rightarrow> jsstring" where
  "quote_units [] = []"
| "quote_units [c] = quote_unit c"
| "quote_units (c # d # ds) =
     (if is_high_surrogate c \<and> is_low_surrogate d then c # d # quote_units ds
      else quote_unit c @ quote_units (d # ds))"

definition quote :: "jsstring \<Rightarrow> jsstring" where
  "quote s = 0x22 # quote_units s @ [0x22]"

fun join_commas :: "jsstring list \<Rightarrow> jsstring" where
  "join_commas [] = []"
| "join_commas [x] = x"
| "join_commas (x # y # ys) = x @ ch CHR '','' # join_commas (y # ys)"

fun JSON_stringify :: "json \<Rightarrow> jsstring" where
  "JSON_stringify JNull = js ''null''"
| "JSON_stringify (JBool b) = (if b then js ''true'' else js ''false'')"
| "JSON_stringify (JNum m d) = number_to_string m d"
| "JSON_stringify (JString s) = quote s"
| "JSON_stringify (JArray vs) = js ''['' @ join_commas (map JSON_stringify vs) @ js '']''"
| "JSON_stringify (JObject kvs) =
     js ''{'' @ join_commas (map (\<lambda>kv. quote (fst kv) @ js '':'' @ JSON_stringify (snd kv)) kvs)
       @ js ''}''"

subsection \<open>Property access and string conversion\<close>

text \<open>
  \<open>member_named k v\<close> is \<^verbatim>\<open>v.k\<close> for a value \<open>v\<close> that is not \<^verbatim>\<open>null\<close> and a name \<open>k\<close>
  that is neither an index nor a built-in member (the source reads \<^verbatim>\<open>imageData\<close>,
  \<^verbatim>\<open>language\<close>, \<^verbatim>\<open>choices\<close>, \<^verbatim>\<open>message\<close> and \<^verbatim>\<open>content\<close>): only an object can have
  it. \<open>None\<close> is \<^verbatim>\<open>undefined\<close>. \<open>element0 v\<close> is \<^verbatim>\<open>v[0]\<close>.
\<close>

definition member_named :: "jsstring \<Rightarrow> json \<Rightarrow> json option" where
  "member_named k v = (case v of JObject kvs \<Rightarrow> map_of kvs k | _ \<Rightarrow> None)"

definition element0 :: "json \<Rightarrow> json option" where
  "element0 v =
     (case v of
        JArray xs \<Rightarrow> (case xs of [] \<Rightarrow> None | x # _ \<Rightarrow> Some x)
      | JString str \<Rightarrow> (case str of [] \<Rightarrow> None | c # _ \<Rightarrow> Some (JString [c]))
      | JObject kvs \<Rightarrow> map_of kvs (js ''0'')
      | _ \<Rightarrow> None)"

text \<open>Optional chaining \<^verbatim>\<open>x?.f\<close>: \<^verbatim>\<open>undefined\<close> when \<open>x\<close> is \<^verbatim>\<open>undefined\<close> or \<^verbatim>\<open>null\<close>.\<close>

definition optional_chain :: "(json \<Rightarrow> json option) \<Rightarrow> json option \<Rightarrow> json option" where
  "optional_chain f x = (case x of None \<Rightarrow> None | Some JNull \<Rightarrow> None | Some v \<Rightarrow> f v)"

text \<open>\<^verbatim>\<open>!x\<close> is true for \<^verbatim>\<open>undefined\<close>, \<^verbatim>\<open>null\<close>, \<^verbatim>\<open>false\<close>, \<^verbatim>\<open>0\<close> and the empty string.\<close>

definition falsy :: "json option \<Rightarrow> bool" where
  "falsy x =
     (case x of
        None \<Rightarrow> True
      | Some JNull \<Rightarrow> True
      | Some (JBool b) \<Rightarrow> \<not> b
      | Some (JNum m d) \<Rightarrow> m = 0
      | Some (JString str) \<Rightarrow> str = []
      | Some _ \<Rightarrow> False)"

text \<open>\<^verbatim>\<open>String(v)\<close>, which \<^verbatim>\<open>JSON.parse\<close> applies to an argument that is not a string: an
  array is its elements joined by commas, with \<^verbatim>\<open>null\<close> elements empty.\<close>

fun to_js_string :: "json \<Rightarrow> jsstring" where
  "to_js_string JNull = js ''null''"
| "to_js_string (JBool b) = (if b then js ''true'' else js ''false'')"
| "to_js_string (JNum m d) = number_to_string m d"
| "to_js_string (JString str) = str"
| "to_js_string (JArray vs) =
     join_commas (map (\<lambda>v. if v = JNull then [] else to_js_string v) vs)"
| "to_js_string (JObject kvs) = js ''[object Object]''"

section \<open>The edge function \<^verbatim>\<open>analyze-plant-disease\<close>\<close>

subsection \<open>The two regular expressions\<close>

text \<open>The class \<^verbatim>\<open>\s\<close> of JavaScript regular expressions.\<close>

definition is_space :: "int \<Rightarrow> bool" where
  "is_space c \<longleftrightarrow>
     c = 0x09 \<or> c = 0x0A \<or> c = 0x0B \<or> c = 0x0C \<or> c = 0x0D \<or> c = 0x20 \<or> c = 0xA0
     \<or> c = 0x1680 \<or> (0x2000 \<le> c \<and> c \<le> 0x200A) \<or> c = 0x2028 \<or> c = 0x2029
     \<or> c = 0x202F \<or> c = 0x205F \<or> c = 0x3000 \<or> c = 0xFEFF"

definition starts_with :: "jsstring \<Rightarrow> jsstring \<Rightarrow> bool" where
  "starts_with p s \<longleftrightarrow> take (length p) s = p"

abbreviation backticks :: jsstring where
  "backticks \<equiv> js ''```''"

text \<open>
  The pattern \<^verbatim>\<open>/```(?:json)?\s*([\s\S]*?)\s*```/\<close> is matched as a backtracking matcher
  does, each part in the order of its alternatives. \<open>closes\<close> is the end \<^verbatim>\<open>\s*```\<close>
  at the start of a text; \<open>lazy_capture\<close> is \<^verbatim>\<open>([\s\S]*?)\s*```\<close>, which takes the fewest
  characters after which the end matches and gives the group; \<open>after_tag\<close> puts the
  greedy \<^verbatim>\<open>\s*\<close> in front, tried with the most spaces first; \<open>fence_here\<close> is the whole
  pattern at the start of a text, with the tag \<^verbatim>\<open>json\<close> tried before its absence;
  \<open>fence_match\<close> tries the positions from the left and gives group 1 of the first match.
\<close>

fun closes :: "jsstring \<Rightarrow> bool" where
  "closes [] = False"
| "closes (c # cs) = (starts_with backticks (c # cs) \<or> (is_space c \<and> closes cs))"

fun lazy_capture :: "jsstring \<Rightarrow> jsstring option" where
  "lazy_capture [] = None"
| "lazy_capture (c # cs) =
     (if closes (c # cs) then Some [] else map_option ((#) c) (lazy_capture cs))"

fun after_tag :: "jsstring \<Rightarrow> jsstring option" where
  "after_tag [] = None"
| "after_tag (c # cs) =
     (if is_space c
      then (case after_tag cs of Some g \<Rightarrow> Some g | None \<Rightarrow> lazy_capture (c # cs))
      else lazy_capture (c # cs))"

definition fence_here :: "jsstring \<Rightarrow> jsstring option" where
  "fence_here s =
     (if starts_with backticks s
      then (let r = drop 3 s
            in if starts_with (js ''json'') r
               then (case after_tag (drop 4 r) of Some g \<Rightarrow> Some g | None \<Rightarrow> after_tag r)
               else after_tag r)
      else None)"

fun fence_match :: "jsstring \<Rightarrow> jsstring option" where
  "fence_match [] = None"
| "fence_match (c # cs) =
     (case fence_here (c # cs) of Some g \<Rightarrow> Some g | None \<Rightarrow> fence_match cs)"

text \<open>Whether three backticks in a row occur in a text.\<close>

fun has_backticks :: "jsstring \<Rightarrow> bool" where
  "has_backticks [] = False"
| "has_backticks (c # cs) = (starts_with backticks (c # cs) \<or> has_backticks cs)"

text \<open>
  The pattern \<^verbatim>\<open>/\{[\s\S]*\}/\<close>: \<open>to_last_brace\<close> is the greedy \<^verbatim>\<open>[\s\S]*\}\<close>, which
  ends at the last closing brace; \<open>object_match\<close> gives the whole match, from the first
  opening brace.
\<close>

fun to_last_brace :: "jsstring \<Rightarrow> jsstring option" where
  "to_last_brace [] = None"
| "to_last_brace (c # cs) =
     (case to_last_brace cs of
        Some g \<Rightarrow> Some (c # g)
      | None \<Rightarrow> if c = ch CHR ''}'' then Some [c] else None)"

fun object_match :: "jsstring \<Rightarrow> jsstring option" where
  "object_match [] = None"
| "object_match (c # cs) =
     (if c = ch CHR ''{''
      then (case to_last_brace cs of Some g \<Rightarrow> Some (c # g) | None \<Rightarrow> object_match cs)
      else object_match cs)"

subsection \<open>Extracting the analysis from the reply\<close>

text \<open>What the handler can throw: an \<^verbatim>\<open>Error\<close> it creates itself with a message, the
  \<^verbatim>\<open>SyntaxError\<close> of \<^verbatim>\<open>JSON.parse\<close>, or a \<^verbatim>\<open>TypeError\<close> of the runtime (a property of
  \<^verbatim>\<open>null\<close>, a call of a missing function, a failed \<^verbatim>\<open>fetch\<close>).\<close>

datatype thrown = Error jsstring | SyntaxError | TypeError

text \<open>
  Lines 107 to 126 of \<^verbatim>\<open>index.ts\<close> on a reply \<open>content\<close> that is a string:
  \<^verbatim>\<open>
    try { analysisResult = JSON.parse(content); }
    catch {
      const jsonMatch = content.match(/```(?:json)?\s*([\s\S]*?)\s*```/);
      if (jsonMatch) { analysisResult = JSON.parse(jsonMatch[1]); }
      else {
        const objectMatch = content.match(/\{[\s\S]*\}/);
        if (objectMatch) { analysisResult = JSON.parse(objectMatch[0]); }
        else { throw new Error('Could not extract JSON from response'); }
      }
    }
  \<close>
  The two inner \<^verbatim>\<open>JSON.parse\<close> calls are inside the \<^verbatim>\<open>catch\<close> block, so what they throw
  leaves the extraction.
\<close>

definition extract_json :: "jsstring \<Rightarrow> thrown + json" where
  "extract_json content =
     (case JSON_parse content of
        Some v \<Rightarrow> Inr v
      | None \<Rightarrow>
          (case fence_match content of
             Some interior \<Rightarrow>
               (case JSON_parse interior of Some v \<Rightarrow> Inr v | None \<Rightarrow> Inl SyntaxError)
           | None \<Rightarrow>
               (case object_match content of
                  Some span \<Rightarrow>
                    (case JSON_parse span of Some v \<Rightarrow> Inr v | None \<Rightarrow> Inl SyntaxError)
                | None \<Rightarrow> Inl (Error (js ''Could not extract JSON from response'')))))"

text \<open>The same lines on any truthy \<open>content\<close>: \<^verbatim>\<open>JSON.parse\<close> converts a value that is not
  a string to a string first, and only a string has \<^verbatim>\<open>match\<close>.\<close>

definition extract_from_content :: "json \<Rightarrow> thrown + json" where
  "extract_from_content c =
     (case c of
        JString str \<Rightarrow> extract_json str
      | _ \<Rightarrow> (case JSON_parse (to_js_string c) of Some v \<Rightarrow> Inr v | None \<Rightarrow> Inl TypeError))"

text \<open>\<^verbatim>\<open>data.choices?.[0]?.message?.content\<close>; reading \<^verbatim>\<open>choices\<close> of \<^verbatim>\<open>null\<close> throws.\<close>

definition content_of :: "json \<Rightarrow> thrown + json option" where
  "content_of data =
     (if data = JNull then Inl TypeError
      else Inr (optional_chain (member_named (js ''content''))
                 (optional_chain (member_named (js ''message''))
                   (optional_chain element0 (member_named (js ''choices'') data)))))"

subsection \<open>The request handler\<close>

text \<open>
  A request is its HTTP verb and its body text. The handler reads the credential from the
  environment (\<^verbatim>\<open>Deno.env.get\<close>, \<open>None\<close> when the variable is unset) and calls the
  model gateway with \<^verbatim>\<open>fetch\<close>. The gateway request is fixed by the source (URL, model,
  prompt wording, temperature) up to the credential, the language and the image, which
  are what the model keeps. The answer of \<^verbatim>\<open>fetch\<close> is given by the environment: it
  rejects, or a reply with a status and a body text arrives.
\<close>

record request =
  http_method :: jsstring
  body :: jsstring

record gateway_request =
  authorization :: jsstring
  prompt_language :: "json option"
  image_url :: "json option"

datatype fetch_result = Rejected | Replied int jsstring

text \<open>
  A response is its status and its body: no body, the text \<^verbatim>\<open>JSON.stringify(v)\<close>, or the
  text of the object \<^verbatim>\<open>{ error: m }\<close> where \<open>m\<close> is the message of the given error (the
  wording of a \<^verbatim>\<open>SyntaxError\<close> or \<^verbatim>\<open>TypeError\<close> is the runtime's). Every response
  carries the same CORS headers, which are left out.
\<close>

datatype response_body = No_body | Json_text json | Error_object thrown

record response =
  status :: int
  payload :: response_body

definition error_response :: "int \<Rightarrow> string \<Rightarrow> response" where
  "error_response st msg = \<lparr>status = st, payload = Error_object (Error (js msg))\<rparr>"

text \<open>Lines 79 to 136: what the handler does with the reply of the gateway.\<close>

definition after_fetch :: "int \<Rightarrow> jsstring \<Rightarrow> thrown + response" where
  "after_fetch st reply =
     (if \<not> (200 \<le> st \<and> st \<le> 299) then
        (if st = 429 then
           Inr (error_response 429 ''Rate limit exceeded. Please try again later.'')
         else if st = 402 then
           Inr (error_response 402 ''Payment required. Please add credits to your workspace.'')
         else Inl (Error (js ''Failed to analyze image'')))
      else
        (case JSON_parse reply of
           None \<Rightarrow> Inl SyntaxError
         | Some data \<Rightarrow>
             (case content_of data of
                Inl e \<Rightarrow> Inl e
              | Inr c \<Rightarrow>
                  if falsy c then Inl (Error (js ''No analysis result received''))
                  else
                    (case extract_from_content (the c) of
                       Inl e \<Rightarrow> Inl e
                     | Inr v \<Rightarrow> Inr \<lparr>status = 200, payload = Json_text v\<rparr>))))"

text \<open>
  The \<^verbatim>\<open>try\<close> block, lines 14 to 136, with the list of the gateway requests it sent.
  \<^verbatim>\<open>!LOVABLE_API_KEY\<close> holds for an unset variable and for the empty string.
  \<open>build_request k b\<close> is the request of lines 46 to 77 for the credential \<open>k\<close> and the
  parsed body \<open>b\<close> of the incoming request.
\<close>

definition build_request :: "jsstring \<Rightarrow> json \<Rightarrow> gateway_request" where
  "build_request k b =
     \<lparr>authorization = js ''Bearer '' @ k,
      prompt_language = member_named (js ''language'') b,
      image_url = member_named (js ''imageData'') b\<rparr>"

definition try_block ::
  "jsstring option \<Rightarrow> (gateway_request \<Rightarrow> fetch_result) \<Rightarrow> request
     \<Rightarrow> (thrown + response) \<times> gateway_request list" where
  "try_block api_key fetch req =
     (case JSON_parse (body req) of
        None \<Rightarrow> (Inl SyntaxError, [])
      | Some b \<Rightarrow>
          if b = JNull then (Inl TypeError, [])
          else if api_key = None \<or> api_key = Some [] then
            (Inl (Error (js ''LOVABLE_API_KEY is not configured'')), [])
          else
            (let rq = build_request (the api_key) b
             in (case fetch rq of
                   Rejected \<Rightarrow> (Inl TypeError, [rq])
                 | Replied st reply \<Rightarrow> (after_fetch st reply, [rq]))))"

text \<open>The handler: the preflight answer, the \<^verbatim>\<open>try\<close> block, and the \<^verbatim>\<open>catch\<close> that turns
  anything thrown into a response with status 500.\<close>

definition serve ::
  "jsstring option \<Rightarrow> (gateway_request \<Rightarrow> fetch_result) \<Rightarrow> request
     \<Rightarrow> response \<times> gateway_request list" where
  "serve api_key fetch req =
     (if http_method req = js ''OPTIONS'' then (\<lparr>status = 200, payload = No_body\<rparr>, [])
      else
        (case try_block api_key fetch req of
           (Inr resp, sent) \<Rightarrow> (resp, sent)
         | (Inl e, sent) \<Rightarrow> (\<lparr>status = 500, payload = Error_object e\<rparr>, sent)))"

section \<open>The report component \<^verbatim>\<open>AnalysisResults\<close>\<close>

subsection \<open>The language catalog and the severity gauge\<close>

record lang =
  code :: jsstring
  name :: jsstring
  nativeName :: jsstring

definition languages :: "lang list" where
  "languages =
     [\<lparr>code = js ''en'', name = js ''English'', nativeName = js ''English''\<rparr>,
      \<lparr>code = js ''kn'', name = js ''Kannada'',
        nativeName = [0x0C95, 0x0CA8, 0x0CCD, 0x0CA8, 0x0CA1]\<rparr>,
      \<lparr>code = js ''ta'', name = js ''Tamil'',
        nativeName = [0x0BA4, 0x0BAE, 0x0BBF, 0x0BB4, 0x0BCD]\<rparr>,
      \<lparr>code = js ''ml'', name = js ''Malayalam'',
        nativeName = [0x0D2E, 0x0D32, 0x0D2F, 0x0D3E, 0x0D33, 0x0D02]\<rparr>,
      \<lparr>code = js ''te'', name = js ''Telugu'',
        nativeName = [0x0C24, 0x0C46, 0x0C32, 0x0C41, 0x0C17, 0x0C41]\<rparr>,
      \<lparr>code = js ''hi'', name = js ''Hindi'',
        nativeName = [0x0939, 0x093F, 0x0928, 0x094D, 0x0926, 0x0940]\<rparr>,
      \<lparr>code = js ''bn'', name = js ''Bengali'',
        nativeName = [0x09AC, 0x09BE, 0x0982, 0x09B2, 0x09BE]\<rparr>,
      \<lparr>code = js ''mr'', name = js ''Marathi'',
        nativeName = [0x092E, 0x0930, 0x093E, 0x0920, 0x0940]\<rparr>,
      \<lparr>code = js ''gu'', name = js ''Gujarati'',
        nativeName = [0x0A97, 0x0AC1, 0x0A9C, 0x0AB0, 0x0ABE, 0x0AA4, 0x0AC0]\<rparr>]"

text \<open>\<^verbatim>\<open>languages.find(l => l.code === selectedLanguage)?.name || selectedLanguage\<close>\<close>

definition language_name :: "jsstring \<Rightarrow> jsstring" where
  "language_name selectedLanguage =
     (case find (\<lambda>l. code l = selectedLanguage) languages of
        None \<Rightarrow> selectedLanguage
      | Some l \<Rightarrow> if name l = [] then selectedLanguage else name l)"

text \<open>
  \<^verbatim>\<open>getSeverityData\<close> reads \<^verbatim>\<open>severityMap[severity]\<close> on an object literal. Such an object
  has its four own properties and inherits the members of \<^verbatim>\<open>Object.prototype\<close>, so the
  lookup has three outcomes: the number of an own property, an inherited member (a
  function, or the prototype object for \<^verbatim>\<open>__proto__\<close>), or \<^verbatim>\<open>undefined\<close>. The operator
  \<^verbatim>\<open>|| 50\<close> replaces a falsy outcome: \<^verbatim>\<open>undefined\<close> or the number 0. An inherited member
  is truthy.
\<close>

definition severityMap :: "(jsstring \<times> int) list" where
  "severityMap =
     [(js ''low'', 25), (js ''moderate'', 50), (js ''high'', 75), (js ''critical'', 100)]"

definition Object_prototype :: "jsstring list" where
  "Object_prototype =
     [js ''constructor'', js ''__defineGetter__'', js ''__defineSetter__'',
      js ''hasOwnProperty'', js ''__lookupGetter__'', js ''__lookupSetter__'',
      js ''isPrototypeOf'', js ''propertyIsEnumerable'', js ''toString'', js ''valueOf'',
      js ''__proto__'', js ''toLocaleString'']"

datatype looked_up = Number int | Inherited jsstring

definition getSeverityData :: "jsstring \<Rightarrow> looked_up" where
  "getSeverityData severity =
     (case map_of severityMap severity of
        Some n \<Rightarrow> if n = 0 then Number 50 else Number n
      | None \<Rightarrow>
          if severity \<in> set Object_prototype then Inherited severity else Number 50)"

subsection \<open>The state of the page and the download handler\<close>

text \<open>
  The state that \<^verbatim>\<open>generatePDFInLanguage\<close> reads and writes: the component's own
  \<^verbatim>\<open>currentData\<close>, \<^verbatim>\<open>currentLanguage\<close> and \<^verbatim>\<open>isGeneratingPDF\<close>, and the state of the
  page \<^verbatim>\<open>Index\<close> behind the props: \<^verbatim>\<open>analysisData\<close> (the prop \<^verbatim>\<open>data\<close>), \<^verbatim>\<open>language\<close>
  and \<^verbatim>\<open>imagePreview\<close>. The page passes
  \<^verbatim>\<open>onLanguageChange = (newLang, newData) => { setLanguage(newLang); setAnalysisData(newData); }\<close>.
\<close>

record report_state =
  currentData :: json
  currentLanguage :: jsstring
  isGeneratingPDF :: bool
  analysisData :: json
  language :: jsstring
  imagePreview :: jsstring

text \<open>What the element behind \<^verbatim>\<open>resultsRef\<close> shows once the state is rendered: the
  language line and the cards from the component's state, the two charts from the prop.\<close>

record surface =
  shown_language :: jsstring
  shown_record :: json
  chart_record :: json

definition render :: "report_state \<Rightarrow> surface" where
  "render st =
     \<lparr>shown_language = currentLanguage st, shown_record = currentData st,
      chart_record = analysisData st\<rparr>"

text \<open>
  The surroundings of the handler: whether \<^verbatim>\<open>resultsRef.current\<close> is set, the answer of
  \<^verbatim>\<open>supabase.functions.invoke('analyze-plant-disease', { body: { imageData, language } })\<close>
  (an error with its message, or the data), and whether \<^verbatim>\<open>html2canvas\<close> and the
  \<^verbatim>\<open>jsPDF\<close> calls succeed on a surface.
\<close>

datatype invoke_result = Invoke_error jsstring | Invoke_data json

record browser =
  results_mounted :: bool
  invoke :: "jsstring \<Rightarrow> jsstring \<Rightarrow> invoke_result"
  capture_succeeds :: "surface \<Rightarrow> bool"

text \<open>What the handler does to the outside, in order: a toast with its title, a call of
  the analysis function with the image and the language, a capture of the report, a
  saved document with the language name of its file name, a line on the console.\<close>

datatype effect =
    Toast jsstring
  | Analysis_call jsstring jsstring
  | Capture surface
  | Save_pdf jsstring surface
  | Console_error

text \<open>Lines 509 to 533, the block under \<^verbatim>\<open>if (selectedLanguage !== currentLanguage)\<close>:
  \<open>Inl\<close> is the error thrown, \<open>Inr\<close> the state after the block.\<close>

definition translate_block ::
  "browser \<Rightarrow> jsstring \<Rightarrow> report_state \<Rightarrow> (jsstring + report_state) \<times> effect list" where
  "translate_block env selectedLanguage st =
     (if selectedLanguage = currentLanguage st then (Inr st, [])
      else
        (case invoke env (imagePreview st) selectedLanguage of
           Invoke_error msg \<Rightarrow>
             (Inl msg,
              [Toast (js ''Translating...''), Analysis_call (imagePreview st) selectedLanguage])
         | Invoke_data translatedData \<Rightarrow>
             (Inr (st\<lparr>currentData := translatedData, currentLanguage := selectedLanguage,
                       language := selectedLanguage, analysisData := translatedData\<rparr>),
              [Toast (js ''Translating...''),
               Analysis_call (imagePreview st) selectedLanguage])))"

text \<open>Lines 535 to 559, from \<^verbatim>\<open>html2canvas\<close> to the toast: \<open>True\<close> when nothing was
  thrown. The report is captured as rendered from the state at that moment.\<close>

definition export_block :: "browser \<Rightarrow> jsstring \<Rightarrow> report_state \<Rightarrow> bool \<times> effect list" where
  "export_block env selectedLanguage st =
     (if capture_succeeds env (render st)
      then (True,
            [Capture (render st), Save_pdf (language_name selectedLanguage) (render st),
             Toast (js ''PDF Downloaded'')])
      else (False, [Capture (render st)]))"

definition failure_effects :: "effect list" where
  "failure_effects = [Console_error, Toast (js ''PDF Generation Failed'')]"

definition generatePDFInLanguage ::
  "browser \<Rightarrow> jsstring \<Rightarrow> report_state \<Rightarrow> report_state \<times> effect list" where
  "generatePDFInLanguage env selectedLanguage st =
     (if \<not> results_mounted env then (st, [])
      else
        (case translate_block env selectedLanguage (st\<lparr>isGeneratingPDF := True\<rparr>) of
           (Inl msg, fx) \<Rightarrow>
             (st\<lparr>isGeneratingPDF := False\<rparr>, fx @ failure_effects)
         | (Inr st', fx) \<Rightarrow>
             (case export_block env selectedLanguage st' of
                (True, fx') \<Rightarrow> (st'\<lparr>isGeneratingPDF := False\<rparr>, fx @ fx')
              | (False, fx') \<Rightarrow> (st'\<lparr>isGeneratingPDF := False\<rparr>, fx @ fx' @ failure_effects))))"

text \<open>The session of the specification is the record held with its language and image.\<close>

definition session :: "report_state \<Rightarrow> (json \<times> jsstring) \<times> (json \<times> jsstring) \<times> jsstring" where
  "session st =
     ((currentData st, currentLanguage st), (analysisData st, language st), imagePreview st)"

definition analysis_calls :: "effect list \<Rightarrow> effect list" where
  "analysis_calls fx = filter (\<lambda>e. case e of Analysis_call i l \<Rightarrow> True | _ \<Rightarrow> False) fx"

section \<open>The analysis record\<close>

text \<open>The interface \<^verbatim>\<open>AnalysisData\<close> of the components, and the object it is in
  JavaScript, with the properties in the order of the interface.\<close>

record AnalysisData =
  diseaseName :: jsstring
  scientificName :: jsstring
  confidence :: int
  severity :: jsstring
  description :: jsstring
  symptoms :: "jsstring list"
  causes :: "jsstring list"
  treatment :: "jsstring list"
  prevention :: "jsstring list"
  affectedParts :: "jsstring list"
  spreadRate :: jsstring

definition strings :: "jsstring list \<Rightarrow> json" where
  "strings xs = JArray (map JString xs)"

definition to_json :: "AnalysisData \<Rightarrow> json" where
  "to_json r =
     JObject
       [(js ''diseaseName'', JString (diseaseName r)),
        (js ''scientificName'', JString (scientificName r)),
        (js ''confidence'', JNum (confidence r) 0),
        (js ''severity'', JString (severity r)),
        (js ''description'', JString (description r)),
        (js ''symptoms'', strings (symptoms r)),
        (js ''causes'', strings (causes r)),
        (js ''treatment'', strings (treatment r)),
        (js ''prevention'', strings (prevention r)),
        (js ''affectedParts'', strings (affectedParts r)),
        (js ''spreadRate'', JString (spreadRate r))]"

text \<open>
  The constraints of the specification's data model on a record (section 3): the
  confidence is an integer from 0 to 100, the severity is one of four words and the spread
  rate one of three. \<open>wellformed\<close> says that the strings are JavaScript strings.
\<close>

definition spec_valid :: "AnalysisData \<Rightarrow> bool" where
  "spec_valid r \<longleftrightarrow>
     0 \<le> confidence r \<and> confidence r \<le> 100
     \<and> severity r \<in> {js ''low'', js ''moderate'', js ''high'', js ''critical''}
     \<and> spreadRate r \<in> {js ''low'', js ''moderate'', js ''high''}"

definition wellformed :: "AnalysisData \<Rightarrow> bool" where
  "wellformed r \<longleftrightarrow>
     list_all is_jsstring
       ([diseaseName r, scientificName r, severity r, description r, spreadRate r]
        @ symptoms r @ causes r @ treatment r @ prevention r @ affectedParts r)"

text \<open>The same constraints on a JSON value, as the specification's schema: every field
  present with its type, and the three ranges.\<close>

definition is_string_field :: "(jsstring \<times> json) list \<Rightarrow> string \<Rightarrow> bool" where
  "is_string_field kvs k = (case map_of kvs (js k) of Some (JString x) \<Rightarrow> True | _ \<Rightarrow> False)"

definition is_strings_field :: "(jsstring \<times> json) list \<Rightarrow> string \<Rightarrow> bool" where
  "is_strings_field kvs k =
     (case map_of kvs (js k) of
        Some (JArray xs) \<Rightarrow> list_all (\<lambda>x. case x of JString y \<Rightarrow> True | _ \<Rightarrow> False) xs
      | _ \<Rightarrow> False)"

definition spec_schema_ok :: "json \<Rightarrow> bool" where
  "spec_schema_ok v =
     (case v of
        JObject kvs \<Rightarrow>
          list_all (is_string_field kvs)
            [''diseaseName'', ''scientificName'', ''severity'', ''description'', ''spreadRate'']
          \<and> list_all (is_strings_field kvs)
              [''symptoms'', ''causes'', ''treatment'', ''prevention'', ''affectedParts'']
          \<and> (case map_of kvs (js ''confidence'') of
                Some (JNum m d) \<Rightarrow> d = 0 \<and> 0 \<le> m \<and> m \<le> 100
              | _ \<Rightarrow> False)
          \<and> map_of kvs (js ''severity'')
              \<in> Some ` JString ` {js ''low'', js ''moderate'', js ''high'', js ''critical''}
          \<and> map_of kvs (js ''spreadRate'')
              \<in> Some ` JString ` {js ''low'', js ''moderate'', js ''high''}
      | _ \<Rightarrow> False)"

section \<open>Notions used in the proofs, and example data\<close>

text \<open>
  \<open>after_value rest\<close>: the text after a value starts with a comma, a closing brace or a
  closing bracket, or is empty. \<open>reads n v\<close>: the text \<^verbatim>\<open>JSON.stringify(v)\<close> does not start
  with white space and, followed by such a text, is parsed back to \<open>v\<close> by \<open>parse_value\<close>
  with any bound from \<open>n\<close> on. \<open>member_text\<close> is the text of one member of an object.
\<close>

definition after_value :: "jsstring \<Rightarrow> bool" where
  "after_value rest \<longleftrightarrow>
     (case rest of [] \<Rightarrow> True | d # _ \<Rightarrow> d = 0x2C \<or> d = 0x7D \<or> d = 0x5D)"

definition reads :: "nat \<Rightarrow> json \<Rightarrow> bool" where
  "reads n v \<longleftrightarrow>
     JSON_stringify v \<noteq> [] \<and> \<not> is_json_ws (hd (JSON_stringify v))
     \<and> (\<forall>m rest. n \<le> m \<longrightarrow> after_value rest \<longrightarrow>
           parse_value m (JSON_stringify v @ rest) = Some (v, rest))"

definition member_text :: "jsstring \<times> json \<Rightarrow> jsstring" where
  "member_text kv = quote (fst kv) @ js '':'' @ JSON_stringify (snd kv)"

definition array_fuel :: "AnalysisData \<Rightarrow> nat" where
  "array_fuel r =
     length (symptoms r) + length (causes r) + length (treatment r)
     + length (prevention r) + length (affectedParts r) + 2"

text \<open>A record that satisfies the constraints, and the same record with three backticks
  in its description.\<close>

definition example_record :: AnalysisData where
  "example_record =
     \<lparr>diseaseName = js ''Leaf Blight'', scientificName = js ''Alternaria solani'',
      confidence = 87, severity = js ''high'',
      description = js ''Brown spots with rings'',
      symptoms = [js ''spots'', js ''wilting''], causes = [js ''fungus''],
      treatment = [js ''fungicide''], prevention = [js ''rotation''],
      affectedParts = [js ''leaves''], spreadRate = js ''moderate''\<rparr>"

definition backtick_record :: AnalysisData where
  "backtick_record = example_record\<lparr>description := js ''Spray ``` weekly''\<rparr>"

text \<open>A reply in the shape of the specification's example: a line of prose, then the text
  in a fenced block tagged \<^verbatim>\<open>json\<close>.\<close>

definition fenced_reply :: "jsstring \<Rightarrow> jsstring" where
  "fenced_reply t = js ''Here you go:'' @ [0x0A] @ js ''```json'' @ [0x0A] @ t @ [0x0A] @ js ''```''"

text \<open>A reply that is JSON but not a record of the schema, and a reply with a fenced
  block that is not JSON followed by an object.\<close>

definition out_of_range_reply :: jsstring where
  \<open>out_of_range_reply = js ''{"diseaseName":"Leaf Blight","confidence":150,"severity":"extreme"}''\<close>

definition out_of_range_value :: json where
  "out_of_range_value =
     JObject [(js ''diseaseName'', JString (js ''Leaf Blight'')), (js ''confidence'', JNum 150 0),
              (js ''severity'', JString (js ''extreme''))]"

definition unparsable_fence_reply :: jsstring where
  \<open>unparsable_fence_reply =
     js ''```'' @ [0x0A] @ js ''not json'' @ [0x0A] @ js ''```'' @ [0x0A] @ js ''{"confidence":87}''\<close>

text \<open>A request of the page, the body of a gateway reply whose message has a given
  content, and a gateway that answers every request with a given status and body.\<close>

definition example_request :: request where
  \<open>example_request =
     \<lparr>http_method = js ''POST'',
      body = js ''{"imageData":"data:image/png;base64,AAAA","language":"hi"}''\<rparr>\<close>

definition example_request_body :: json where
  "example_request_body =
     JObject [(js ''imageData'', JString (js ''data:image/png;base64,AAAA'')),
              (js ''language'', JString (js ''hi''))]"

definition gateway_body :: "jsstring \<Rightarrow> jsstring" where
  "gateway_body c =
     JSON_stringify
       (JObject [(js ''choices'',
                  JArray [JObject [(js ''message'', JObject [(js ''content'', JString c)])]])])"

definition gateway_answering :: "int \<Rightarrow> jsstring \<Rightarrow> gateway_request \<Rightarrow> fetch_result" where
  "gateway_answering st reply rq = Replied st reply"

text \<open>A page that shows the example record in English, a browser in which the analysis
  call fails, and one in which it returns a record whose name is the language asked for
  and the capture fails.\<close>

definition example_state :: report_state where
  "example_state =
     \<lparr>currentData = to_json example_record, currentLanguage = js ''en'',
      isGeneratingPDF = False, analysisData = to_json example_record, language = js ''en'',
      imagePreview = js ''data:image/png;base64,AAAA''\<rparr>"

definition failing_browser :: browser where
  "failing_browser =
     \<lparr>results_mounted = True,
      invoke = (\<lambda>image lang. Invoke_error (js ''Edge Function returned a non-2xx status code'')),
      capture_succeeds = (\<lambda>s. True)\<rparr>"

definition translating_browser :: browser where
  "translating_browser =
     \<lparr>results_mounted = True,
      invoke = (\<lambda>image lang. Invoke_data (JObject [(js ''diseaseName'', JString lang)])),
      capture_succeeds = (\<lambda>s. False)\<rparr>"

section \<open>Serializing and parsing\<close>

subsection \<open>Strings are read back\<close>

lemma hex_val_hex_digit: "0 \<le> n \<Longrightarrow> n < 16 \<Longrightarrow> hex_val (hex_digit n) = Some n"
  by (auto simp add: hex_val_def hex_digit_def)

lemma hex_digits_of_unit:
  fixes c :: int
  assumes "0 \<le> c" "c \<le> 0xFFFF"
  shows "4096 * (c div 4096 mod 16) + 256 * (c div 256 mod 16) + 16 * (c div 16 mod 16) + c mod 16 = c"
proof -
  define q1 where "q1 = c div 16"
  define q2 where "q2 = q1 div 16"
  define q3 where "q3 = q2 div 16"
  define r0 where "r0 = c mod 16"
  define r1 where "r1 = q1 mod 16"
  define r2 where "r2 = q2 mod 16"
  have e0: "c = 16 * q1 + r0" by (simp add: q1_def r0_def)
  have e1: "q1 = 16 * q2 + r1" by (simp add: q2_def r1_def)
  have e2: "q2 = 16 * q3 + r2" by (simp add: q3_def r2_def)
  have "c div (16 * 16) = c div 16 div 16" by (rule zdiv_zmult2_eq) simp
  then have d2: "c div 256 = q2" by (simp add: q1_def q2_def)
  have "c div (256 * 16) = c div 256 div 16" by (rule zdiv_zmult2_eq) simp
  then have d3: "c div 4096 = q3" by (simp add: d2 q3_def)
  have "r0 \<ge> 0" "r1 \<ge> 0" "r2 \<ge> 0" by (simp_all add: r0_def r1_def r2_def)
  with e0 e1 e2 assms have "q3 < 16" by linarith
  moreover have "0 \<le> q3" using assms by (simp add: q3_def q2_def q1_def)
  ultimately have m3: "q3 mod 16 = q3" by simp
  have "4096 * q3 + 256 * r2 + 16 * r1 + r0 = c" using e0 e1 e2 by linarith
  then show ?thesis by (simp add: d2 d3 m3 r0_def r1_def r2_def q1_def)
qed

lemma hex_val_mod16: "hex_val (hex_digit (x mod 16)) = Some (x mod 16)"
  by (rule hex_val_hex_digit) simp_all

lemma hex4_val_unicode_escape:
  assumes "0 \<le> c" "c \<le> 0xFFFF"
  shows "hex4_val (hex_digit (c div 4096 mod 16)) (hex_digit (c div 256 mod 16))
           (hex_digit (c div 16 mod 16)) (hex_digit (c mod 16)) = Some c"
proof -
  have "hex4_val (hex_digit (c div 4096 mod 16)) (hex_digit (c div 256 mod 16))
           (hex_digit (c div 16 mod 16)) (hex_digit (c mod 16))
        = Some (4096 * (c div 4096 mod 16) + 256 * (c div 256 mod 16)
                + 16 * (c div 16 mod 16) + c mod 16)"
    unfolding hex4_val_def hex_val_mod16 by simp
  also have "\<dots> = Some c"
    by (simp only: hex_digits_of_unit [OF assms])
  finally show ?thesis .
qed

lemma parse_quote_unit:
  assumes "0 \<le> c" "c \<le> 0xFFFF"
  shows "parse_string_body (quote_unit c @ rest) = cons_result c (parse_string_body rest)"
proof -
  consider "c = 0x08" | "c = 0x09" | "c = 0x0A" | "c = 0x0C" | "c = 0x0D" | "c = 0x22" | "c = 0x5C"
    | "c \<notin> {0x08, 0x09, 0x0A, 0x0C, 0x0D, 0x22, 0x5C}" "c < 0x20 \<or> is_high_surrogate c \<or> is_low_surrogate c"
    | "c \<notin> {0x08, 0x09, 0x0A, 0x0C, 0x0D, 0x22, 0x5C}" "\<not> (c < 0x20 \<or> is_high_surrogate c \<or> is_low_surrogate c)"
    by blast
  then show ?thesis
  proof cases
    case 8
    then show ?thesis
      using hex4_val_unicode_escape [OF assms]
      by (simp add: quote_unit_def unicode_escape_def)
  next
    case 9
    then show ?thesis by (simp add: quote_unit_def)
  qed (simp_all add: quote_unit_def simple_escape_def)
qed

lemma parse_quote_units:
  "is_jsstring s \<Longrightarrow> parse_string_body (quote_units s @ 0x22 # rest) = Some (s, rest)"
proof (induction s rule: quote_units.induct)
  case 1
  then show ?case by simp
next
  case (2 c)
  then have "0 \<le> c" "c \<le> 0xFFFF" by (simp_all add: is_jsstring_def)
  then have "parse_string_body (quote_unit c @ 0x22 # rest)
      = cons_result c (parse_string_body (0x22 # rest))"
    by (rule parse_quote_unit)
  then show ?case by (simp add: cons_result_def)
next
  case (3 c d ds)
  from "3.prems" have c: "0 \<le> c" "c \<le> 0xFFFF" and d: "0 \<le> d" "d \<le> 0xFFFF"
    and tl: "is_jsstring (d # ds)" and tl2: "is_jsstring ds"
    by (simp_all add: is_jsstring_def)
  show ?case
  proof (cases "is_high_surrogate c \<and> is_low_surrogate d")
    case True
    then have ih: "parse_string_body (quote_units ds @ 0x22 # rest) = Some (ds, rest)"
      using "3.IH"(1) tl2 by simp
    have eq: "quote_units (c # d # ds) = c # d # quote_units ds"
      using True by simp
    have "parse_string_body (c # d # quote_units ds @ 0x22 # rest)
        = cons_result c (cons_result d (parse_string_body (quote_units ds @ 0x22 # rest)))"
      using True by (simp add: is_high_surrogate_def is_low_surrogate_def)
    with ih show ?thesis
      unfolding eq by (simp add: cons_result_def del: parse_string_body.simps quote_units.simps)
  next
    case False
    then have ih: "parse_string_body (quote_units (d # ds) @ 0x22 # rest) = Some (d # ds, rest)"
      using "3.IH"(2) tl by simp
    have eq: "quote_units (c # d # ds) = quote_unit c @ quote_units (d # ds)"
      using False by auto
    have "parse_string_body (quote_unit c @ quote_units (d # ds) @ 0x22 # rest)
        = cons_result c (parse_string_body (quote_units (d # ds) @ 0x22 # rest))"
      using c by (rule parse_quote_unit)
    with ih show ?thesis
      unfolding eq by (simp add: cons_result_def del: parse_string_body.simps quote_units.simps)
  qed
qed

lemma parse_value_string:
  assumes "is_jsstring s"
  shows "parse_value (Suc n) (quote s @ rest) = Some (JString s, rest)"
  using parse_quote_units [OF assms, of rest] by (simp add: quote_def)

subsection \<open>Numbers are read back\<close>

lemma digits_of_nonempty: "digits_of n \<noteq> []"
  by (subst digits_of.simps) simp

lemma digits_of_all_digits: "0 \<le> n \<Longrightarrow> list_all is_digit (digits_of n)"
proof (induction n rule: digits_of.induct)
  case (1 n)
  show ?case
  proof (cases "n < 10")
    case True
    with 1 show ?thesis by (subst digits_of.simps) (simp add: is_digit_def)
  next
    case False
    with 1 have "list_all is_digit (digits_of (n div 10))" by simp
    moreover have "is_digit (0x30 + n mod 10)"
      by (simp add: is_digit_def)
    ultimately show ?thesis using False by (subst digits_of.simps) simp
  qed
qed

lemma digits_val_snoc: "digits_val (ds @ [c]) = 10 * digits_val ds + (c - 0x30)"
  by (simp add: digits_val_def)

lemma digits_val_digits_of: "0 \<le> n \<Longrightarrow> digits_val (digits_of n) = n"
proof (induction n rule: digits_of.induct)
  case (1 n)
  show ?case
  proof (cases "n < 10")
    case True
    then show ?thesis by (subst digits_of.simps) (simp add: digits_val_def)
  next
    case False
    with 1 have "digits_val (digits_of (n div 10)) = n div 10" by simp
    with False show ?thesis
      by (subst digits_of.simps) (simp add: digits_val_snoc)
  qed
qed

lemma hd_digits_of: "0 < n \<Longrightarrow> hd (digits_of n) \<noteq> 0x30"
proof (induction n rule: digits_of.induct)
  case (1 n)
  show ?case
  proof (cases "n < 10")
    case True
    with 1 show ?thesis by (subst digits_of.simps) simp
  next
    case False
    with 1 have "hd (digits_of (n div 10)) \<noteq> 0x30" by simp
    with False show ?thesis
      by (subst digits_of.simps) (simp add: digits_of_nonempty)
  qed
qed

lemma takeWhile_digits:
  "list_all is_digit ds \<Longrightarrow> after_value rest \<Longrightarrow> takeWhile is_digit (ds @ rest) = ds"
  by (induction ds) (auto simp add: after_value_def is_digit_def split: list.splits)

lemma int_part_digits_of:
  assumes "0 \<le> n" "after_value rest"
  shows "int_part (digits_of n @ rest) = digits_of n"
proof (cases "n = 0")
  case True
  then show ?thesis by (subst (1 2) digits_of.simps) (simp add: int_part_def)
next
  case False
  with assms have "hd (digits_of n) \<noteq> 0x30" by (simp add: hd_digits_of)
  moreover obtain c cs where cs: "digits_of n = c # cs"
    using digits_of_nonempty [of n] by (cases "digits_of n") auto
  ultimately have "int_part (digits_of n @ rest) = takeWhile is_digit (digits_of n @ rest)"
    by (simp add: int_part_def)
  with assms show ?thesis by (simp add: takeWhile_digits digits_of_all_digits)
qed

lemma frac_part_after_value: "after_value rest \<Longrightarrow> frac_part rest = Some ([], rest)"
  by (auto simp add: frac_part_def after_value_def split: list.splits)

lemma exp_part_after_value: "after_value rest \<Longrightarrow> exp_part rest = Some (0, rest)"
  by (auto simp add: exp_part_def after_value_def split: list.splits)

lemma parse_number_digits_of:
  assumes "0 \<le> n" "after_value rest"
  shows "parse_number (digits_of n @ rest) = Some (JNum n 0, rest)"
proof -
  obtain c cs where cs: "digits_of n = c # cs"
    using digits_of_nonempty [of n] by (cases "digits_of n") auto
  with digits_of_all_digits [OF assms(1)] have "is_digit c" by simp
  then have nm: "c \<noteq> ch CHR ''-''" by (auto simp add: is_digit_def)
  have ip: "int_part (c # cs @ rest) = c # cs"
    using int_part_digits_of [OF assms] cs by simp
  have "mk_number False (c # cs) 0 0 = JNum n 0"
    using digits_val_digits_of [OF assms(1)] cs by (simp add: mk_number_def)
  then show ?thesis
    using nm ip assms(2)
    by (simp add: parse_number_def cs frac_part_after_value exp_part_after_value)
qed

lemma parse_value_number:
  assumes "0 \<le> n" "after_value rest"
  shows "parse_value (Suc m) (digits_of n @ rest) = Some (JNum n 0, rest)"
proof -
  obtain c cs where cs: "digits_of n = c # cs"
    using digits_of_nonempty [of n] by (cases "digits_of n") auto
  with digits_of_all_digits [OF assms(1)] have d: "is_digit c" by simp
  then have "c \<noteq> ch CHR ''{''" "c \<noteq> ch CHR ''[''" "c \<noteq> 0x22" "c \<noteq> ch CHR ''t''"
    "c \<noteq> ch CHR ''f''" "c \<noteq> ch CHR ''n''"
    by (auto simp add: is_digit_def)
  with d have "parse_value (Suc m) (c # cs @ rest) = parse_number (c # cs @ rest)"
    by simp
  with parse_number_digits_of [OF assms] cs show ?thesis by simp
qed

lemma strip_zeros_replicate:
  "strip_zeros ds @ replicate (length ds - length (strip_zeros ds)) 0x30 = ds"
proof -
  let ?P = "\<lambda>c::int. c = 0x30"
  have "takeWhile ?P xs = replicate (length (takeWhile ?P xs)) 0x30" for xs
    by (induction xs) auto
  then have tw: "rev (takeWhile ?P xs) = replicate (length (takeWhile ?P xs)) 0x30" for xs
    by (metis rev_replicate)
  have "length ds - length (strip_zeros ds) = length (takeWhile ?P (rev ds))"
    using arg_cong [OF takeWhile_dropWhile_id [of ?P "rev ds"], of length]
    by (simp add: strip_zeros_def del: takeWhile_dropWhile_id)
  then have "strip_zeros ds @ replicate (length ds - length (strip_zeros ds)) 0x30
      = rev (dropWhile ?P (rev ds)) @ rev (takeWhile ?P (rev ds))"
    using tw [of "rev ds"] by (simp add: strip_zeros_def)
  also have "\<dots> = ds"
    by (metis rev_append rev_rev_ident takeWhile_dropWhile_id)
  finally show ?thesis .
qed

lemma length_strip_zeros: "length (strip_zeros ds) \<le> length ds"
  by (simp add: strip_zeros_def length_dropWhile_le [of _ "rev ds", simplified])

lemma length_digits_of: "n < 10 ^ Suc k \<Longrightarrow> length (digits_of n) \<le> Suc k"
proof (induction k arbitrary: n)
  case 0
  then show ?case by (subst digits_of.simps) simp
next
  case (Suc k)
  show ?case
  proof (cases "n < 10")
    case True
    then show ?thesis by (subst digits_of.simps) simp
  next
    case False
    from Suc.prems have "n div 10 < 10 ^ Suc k" by simp
    then have "length (digits_of (n div 10)) \<le> Suc k" by (rule Suc.IH)
    with False show ?thesis by (subst digits_of.simps) simp
  qed
qed

lemma number_to_string_integer:
  assumes "0 \<le> n" "n < 10 ^ 21"
  shows "number_to_string n 0 = digits_of n"
proof (cases "n = 0")
  case True
  then show ?thesis by (subst digits_of.simps) (simp add: number_to_string_def)
next
  case False
  with assms have abs: "\<bar>n\<bar> = n" and pos: "\<not> n < 0" by simp_all
  have len: "length (digits_of n) \<le> 21"
    using length_digits_of [of n 20] assms by simp
  have "int (length (strip_zeros (digits_of n))) \<le> int (length (digits_of n)) - int 0"
    using length_strip_zeros [of "digits_of n"] by simp
  with len False pos show ?thesis
    by (simp add: number_to_string_def Let_def abs strip_zeros_replicate)
qed

subsection \<open>Arrays of strings and objects are read back\<close>

lemma skip_ws_not_ws: "s \<noteq> [] \<Longrightarrow> \<not> is_json_ws (hd s) \<Longrightarrow> skip_ws (s @ rest) = s @ rest"
  by (cases s) (simp_all add: skip_ws_def)

lemma skip_ws_quote: "skip_ws (quote s @ rest) = quote s @ rest"
  by (simp add: skip_ws_def quote_def is_json_ws_def)

lemma reads_mono: "reads n v \<Longrightarrow> n \<le> n' \<Longrightarrow> reads n' v"
  by (simp add: reads_def)

lemma reads_string: "is_jsstring s \<Longrightarrow> reads 1 (JString s)"
proof -
  assume s: "is_jsstring s"
  have "parse_value m (quote s @ rest) = Some (JString s, rest)" if "1 \<le> m" for m rest
  proof -
    from that obtain m' where "m = Suc m'" by (cases m) auto
    with parse_value_string [OF s] show ?thesis by simp
  qed
  then show ?thesis by (simp add: reads_def quote_def is_json_ws_def)
qed

lemma reads_number: 
  assumes "0 \<le> n" "n < 10 ^ 21"
  shows "reads 1 (JNum n 0)"
proof -
  have str: "number_to_string n 0 = digits_of n"
    using assms by (rule number_to_string_integer)
  obtain c cs where cs: "digits_of n = c # cs"
    using digits_of_nonempty [of n] by (cases "digits_of n") auto
  with digits_of_all_digits [OF assms(1)] have "is_digit c" by simp
  then have nws: "\<not> is_json_ws c" by (auto simp add: is_digit_def is_json_ws_def)
  have "parse_value m (digits_of n @ rest) = Some (JNum n 0, rest)"
    if "1 \<le> m" "after_value rest" for m rest
  proof -
    from that obtain m' where "m = Suc m'" by (cases m) auto
    with parse_value_number [OF assms(1) that(2)] show ?thesis by simp
  qed
  with nws cs show ?thesis by (simp add: reads_def str)
qed

lemma join_commas_quote_hd: "\<exists>t. join_commas (map quote (y # ys)) = 0x22 # t"
  by (cases ys) (simp_all add: quote_def)

lemma skip_ws_join_commas_quote:
  "skip_ws (join_commas (quote y # map quote ys) @ rest) = join_commas (quote y # map quote ys) @ rest"
proof -
  obtain t where "join_commas (map quote (y # ys)) = 0x22 # t"
    using join_commas_quote_hd by blast
  then show ?thesis by (simp add: skip_ws_def is_json_ws_def)
qed

lemma fuel_two:
  assumes "Suc n < m"
  obtains m' where "m = Suc (Suc m')"
  using assms by (auto dest: less_imp_Suc_add)

lemma parse_elements_strings:
  assumes "list_all is_jsstring (x # xs)" "length xs + 1 < m"
  shows "parse_elements m acc (join_commas (map quote (x # xs)) @ 0x5D # rest)
           = Some (JArray (acc @ map JString (x # xs)), rest)"
  using assms
proof (induction xs arbitrary: x acc m)
  case Nil
  then have "Suc 0 < m" by simp
  then obtain m' where m: "m = Suc (Suc m')" by (rule fuel_two)
  from Nil have x: "is_jsstring x" by simp
  show ?case
    by (simp add: m parse_value_string [OF x] skip_ws_def is_json_ws_def
          del: parse_value.simps)
next
  case (Cons y ys)
  from Cons.prems(2) have "Suc 0 < m" by simp
  then obtain m' where m: "m = Suc (Suc m')" by (rule fuel_two)
  from Cons.prems have x: "is_jsstring x" and tl: "list_all is_jsstring (y # ys)" by simp_all
  from Cons.prems m have fuel: "length ys + 1 < Suc m'" by simp
  let ?J = "join_commas (map quote (y # ys))"
  have ih: "parse_elements (Suc m') (acc @ [JString x]) (?J @ 0x5D # rest)
      = Some (JArray ((acc @ [JString x]) @ map JString (y # ys)), rest)"
    using tl fuel by (rule Cons.IH)
  have "parse_elements (Suc (Suc m')) acc (quote x @ 0x2C # ?J @ 0x5D # rest)
      = parse_elements (Suc m') (acc @ [JString x]) (skip_ws (?J @ 0x5D # rest))"
    by (simp add: parse_value_string [OF x] skip_ws_def [of "0x2C # _"] is_json_ws_def
          del: parse_value.simps parse_elements.simps(2) join_commas.simps
          add: parse_elements.simps(2) [of "Suc m'" acc])
  with ih show ?case
    by (simp add: m skip_ws_join_commas_quote del: parse_elements.simps parse_value.simps)
qed

lemma reads_strings:
  assumes "list_all is_jsstring xs"
  shows "reads (length xs + 2) (strings xs)"
proof (cases xs)
  case Nil
  have "parse_value m (0x5B # 0x5D # rest) = Some (JArray [], rest)" if "2 \<le> m" for m rest
  proof -
    from that obtain m' where "m = Suc m'" by (cases m) auto
    then show ?thesis by (simp add: skip_ws_def is_json_ws_def)
  qed
  with Nil show ?thesis by (simp add: reads_def strings_def is_json_ws_def)
next
  case (Cons y ys)
  have "parse_value m (0x5B # join_commas (map quote (y # ys)) @ 0x5D # rest)
      = Some (JArray (map JString (y # ys)), rest)" if "length ys + 3 \<le> m" for m rest
  proof -
    from that obtain m' where m: "m = Suc m'" by (cases m) auto
    with that have fuel: "length ys + 1 < m'" by simp
    obtain t where t: "join_commas (quote y # map quote ys) = 0x22 # t"
      using join_commas_quote_hd [of y ys] by auto
    have "parse_value (Suc m') (0x5B # join_commas (map quote (y # ys)) @ 0x5D # rest)
        = parse_elements m' [] (join_commas (map quote (y # ys)) @ 0x5D # rest)"
      by (simp add: t skip_ws_def is_json_ws_def del: parse_elements.simps join_commas.simps)
    also have "\<dots> = Some (JArray ([] @ map JString (y # ys)), rest)"
      using assms fuel unfolding Cons by (rule parse_elements_strings)
    finally show ?thesis by (simp add: m)
  qed
  with Cons show ?thesis
    by (simp add: reads_def strings_def is_json_ws_def comp_def del: join_commas.simps)
qed

lemma define_property_fresh:
  "k \<notin> set (map fst acc) \<Longrightarrow> \<not> is_array_index k \<Longrightarrow> define_property k v acc = acc @ [(k, v)]"
  by (simp add: define_property_def)

lemma skip_ws_after_value: "after_value rest \<Longrightarrow> skip_ws rest = rest"
  by (cases rest) (auto simp add: after_value_def skip_ws_def is_json_ws_def)

lemma parse_member:
  assumes k: "is_jsstring k" and v: "reads f v" and fuel: "f \<le> m" and rest: "after_value rest"
  shows "parse_members (Suc m) acc (member_text (k, v) @ rest) =
           (case rest of
              [] \<Rightarrow> None
            | d # ds \<Rightarrow>
                if d = 0x2C then parse_members m (define_property k v acc) (skip_ws ds)
                else if d = 0x7D then Some (JObject (define_property k v acc), ds)
                else None)"
proof -
  let ?vt = "JSON_stringify v"
  have key: "parse_string_body (quote_units k @ 0x22 # 0x3A # ?vt @ rest) = Some (k, 0x3A # ?vt @ rest)"
    using k by (rule parse_quote_units)
  have colon: "skip_ws (0x3A # ?vt @ rest) = 0x3A # ?vt @ rest"
    by (simp add: skip_ws_def is_json_ws_def)
  have "skip_ws (?vt @ rest) = ?vt @ rest"
    using v by (simp add: reads_def skip_ws_not_ws)
  moreover have "parse_value m (?vt @ rest) = Some (v, rest)"
    using v fuel rest by (simp add: reads_def)
  ultimately have val: "parse_value m (skip_ws (?vt @ rest)) = Some (v, rest)"
    by simp
  have "member_text (k, v) @ rest = 0x22 # quote_units k @ 0x22 # 0x3A # ?vt @ rest"
    by (simp add: member_text_def quote_def)
  then show ?thesis
    by (simp add: key colon val skip_ws_after_value [OF rest]
          del: parse_value.simps parse_string_body.simps split: list.splits)
qed

lemma member_text_hd: "\<exists>t. member_text kv = 0x22 # t"
  by (simp add: member_text_def quote_def)

lemma join_members_hd: "\<exists>t. join_commas (map member_text (kv # kvs)) = 0x22 # t"
  using member_text_hd [of kv] by (cases kvs) auto

lemma parse_members_list:
  assumes "\<forall>kv \<in> set (kv # kvs). is_jsstring (fst kv) \<and> \<not> is_array_index (fst kv) \<and> reads f (snd kv)"
    and "distinct (map fst (acc @ kv # kvs))"
    and "f + length kvs \<le> m"
  shows "parse_members (Suc m) acc (join_commas (map member_text (kv # kvs)) @ 0x7D # rest)
           = Some (JObject (acc @ kv # kvs), rest)"
  using assms
proof (induction kvs arbitrary: kv acc m)
  case Nil
  obtain k v where kv: "kv = (k, v)" by (cases kv)
  with Nil have k: "is_jsstring k" "\<not> is_array_index k" and v: "reads f v" and fuel: "f \<le> m"
    and fresh: "k \<notin> set (map fst acc)"
    by auto
  have "after_value (0x7D # rest)" by (simp add: after_value_def)
  with parse_member [OF k(1) v fuel, of "0x7D # rest" acc]
  show ?case by (simp add: kv define_property_fresh [OF fresh k(2)] del: parse_members.simps)
next
  case (Cons kv' kvs)
  obtain k v where kv: "kv = (k, v)" by (cases kv)
  with Cons.prems have k: "is_jsstring k" "\<not> is_array_index k" and v: "reads f v"
    and fresh: "k \<notin> set (map fst acc)"
    by auto
  from Cons.prems obtain m' where m: "m = Suc m'" and fuel': "f + length kvs \<le> m'"
    by (cases m) auto
  then have fuel: "f \<le> m" by simp
  let ?J = "join_commas (map member_text (kv' # kvs))"
  obtain t where t: "?J = 0x22 # t" using join_members_hd by blast
  have "skip_ws (?J @ 0x7D # rest) = ?J @ 0x7D # rest"
    unfolding t by (simp add: skip_ws_def is_json_ws_def)
  then have skip: "skip_ws (join_commas (member_text kv' # map member_text kvs) @ 0x7D # rest)
      = join_commas (member_text kv' # map member_text kvs) @ 0x7D # rest"
    by simp
  have ih: "parse_members (Suc m') (acc @ [kv]) (?J @ 0x7D # rest)
      = Some (JObject ((acc @ [kv]) @ kv' # kvs), rest)"
  proof (rule Cons.IH)
    show "\<forall>kv\<in>set (kv' # kvs). is_jsstring (fst kv) \<and> \<not> is_array_index (fst kv) \<and> reads f (snd kv)"
      using Cons.prems(1) by simp
    show "distinct (map fst ((acc @ [kv]) @ kv' # kvs))"
      using Cons.prems(2) by simp
    show "f + length kvs \<le> m'" by (rule fuel')
  qed
  have av: "after_value (0x2C # ?J @ 0x7D # rest)" by (simp add: after_value_def)
  have "join_commas (map member_text (kv # kv' # kvs)) @ 0x7D # rest
      = member_text (k, v) @ 0x2C # ?J @ 0x7D # rest"
    by (simp add: kv)
  then have "parse_members (Suc m) acc (join_commas (map member_text (kv # kv' # kvs)) @ 0x7D # rest)
      = parse_members m (define_property k v acc) (skip_ws (?J @ 0x7D # rest))"
    using parse_member [OF k(1) v fuel av, of acc] by (simp del: parse_members.simps join_commas.simps)
  with ih show ?case
    by (simp add: skip define_property_fresh [OF fresh k(2)] m kv del: parse_members.simps join_commas.simps)
qed

lemma reads_object:
  assumes "\<forall>kv \<in> set (kv # kvs). is_jsstring (fst kv) \<and> \<not> is_array_index (fst kv) \<and> reads f (snd kv)"
    and "distinct (map fst (kv # kvs))"
  shows "reads (f + length kvs + 2) (JObject (kv # kvs))"
proof -
  let ?J = "join_commas (map member_text (kv # kvs))"
  have str: "JSON_stringify (JObject (kv # kvs)) = 0x7B # ?J @ [0x7D]"
    by (simp add: member_text_def [abs_def] del: join_commas.simps)
  obtain t where t: "?J = 0x22 # t" using join_members_hd by blast
  have "parse_value m (0x7B # ?J @ 0x7D # rest) = Some (JObject (kv # kvs), rest)"
    if "f + length kvs + 2 \<le> m" for m rest
  proof -
    define m' where "m' = m - 2"
    with that have m: "m = Suc (Suc m')" and fuel: "f + length kvs \<le> m'"
      by simp_all
    have "parse_value (Suc (Suc m')) (0x7B # ?J @ 0x7D # rest) = parse_members (Suc m') [] (?J @ 0x7D # rest)"
      unfolding t by (simp add: skip_ws_def is_json_ws_def del: parse_members.simps)
    also have "\<dots> = Some (JObject ([] @ kv # kvs), rest)"
      using assms(1) _ fuel by (rule parse_members_list) (use assms(2) in simp)
    finally show ?thesis by (simp add: m)
  qed
  then show ?thesis
    unfolding reads_def str by (simp add: is_json_ws_def del: join_commas.simps)
qed

subsection \<open>The analysis record is read back\<close>

lemma length_join_commas: "\<forall>y \<in> set ys. y \<noteq> [] \<Longrightarrow> length ys \<le> length (join_commas ys)"
proof (induction ys rule: join_commas.induct)
  case (2 x)
  then show ?case by (cases x) simp_all
next
  case (3 x y ys)
  then show ?case by (cases x) simp_all
qed simp

lemma length_stringify_strings: "length xs \<le> length (JSON_stringify (strings xs))"
proof -
  have "length (map quote xs) \<le> length (join_commas (map quote xs))"
    by (rule length_join_commas) (simp add: quote_def)
  then show ?thesis by (simp add: strings_def comp_def)
qed

lemma reads_to_json:
  assumes "spec_valid r" "wellformed r"
  shows "reads (array_fuel r + 12) (to_json r)"
proof -
  let ?f = "array_fuel r"
  from assms(2) have s: "is_jsstring (diseaseName r)" "is_jsstring (scientificName r)"
      "is_jsstring (severity r)" "is_jsstring (description r)" "is_jsstring (spreadRate r)"
    and a: "list_all is_jsstring (symptoms r)" "list_all is_jsstring (causes r)"
      "list_all is_jsstring (treatment r)" "list_all is_jsstring (prevention r)"
      "list_all is_jsstring (affectedParts r)"
    by (simp_all add: wellformed_def)
  have str: "reads ?f (JString x)" if "is_jsstring x" for x
    using reads_string [OF that] by (rule reads_mono) (simp add: array_fuel_def)
  have arr: "reads ?f (strings xs)" if "list_all is_jsstring xs" "length xs + 2 \<le> ?f" for xs
    using reads_strings [OF that(1)] that(2) by (rule reads_mono)
  from assms(1) have "0 \<le> confidence r" "confidence r < 10 ^ 21"
    by (simp_all add: spec_valid_def)
  then have "reads 1 (JNum (confidence r) 0)" by (rule reads_number)
  then have num: "reads ?f (JNum (confidence r) 0)"
    by (rule reads_mono) (simp add: array_fuel_def)
  have vals: "reads ?f (JString (diseaseName r))" "reads ?f (JString (scientificName r))"
    "reads ?f (JString (severity r))" "reads ?f (JString (description r))"
    "reads ?f (JString (spreadRate r))"
    using s by (simp_all add: str)
  have arrs: "reads ?f (strings (symptoms r))" "reads ?f (strings (causes r))"
    "reads ?f (strings (treatment r))" "reads ?f (strings (prevention r))"
    "reads ?f (strings (affectedParts r))"
    using a by - (rule arr, assumption, simp add: array_fuel_def)+
  have "reads (?f + length
           [(js ''scientificName'', JString (scientificName r)),
            (js ''confidence'', JNum (confidence r) 0),
            (js ''severity'', JString (severity r)),
            (js ''description'', JString (description r)),
            (js ''symptoms'', strings (symptoms r)),
            (js ''causes'', strings (causes r)),
            (js ''treatment'', strings (treatment r)),
            (js ''prevention'', strings (prevention r)),
            (js ''affectedParts'', strings (affectedParts r)),
            (js ''spreadRate'', JString (spreadRate r))] + 2) (to_json r)"
    unfolding to_json_def
  proof (rule reads_object)
    show "distinct (map fst
          [(js ''diseaseName'', JString (diseaseName r)),
           (js ''scientificName'', JString (scientificName r)),
           (js ''confidence'', JNum (confidence r) 0),
           (js ''severity'', JString (severity r)),
           (js ''description'', JString (description r)),
           (js ''symptoms'', strings (symptoms r)),
           (js ''causes'', strings (causes r)),
           (js ''treatment'', strings (treatment r)),
           (js ''prevention'', strings (prevention r)),
           (js ''affectedParts'', strings (affectedParts r)),
           (js ''spreadRate'', JString (spreadRate r))])"
      by simp
    show "\<forall>kv\<in>set
          [(js ''diseaseName'', JString (diseaseName r)),
           (js ''scientificName'', JString (scientificName r)),
           (js ''confidence'', JNum (confidence r) 0),
           (js ''severity'', JString (severity r)),
           (js ''description'', JString (description r)),
           (js ''symptoms'', strings (symptoms r)),
           (js ''causes'', strings (causes r)),
           (js ''treatment'', strings (treatment r)),
           (js ''prevention'', strings (prevention r)),
           (js ''affectedParts'', strings (affectedParts r)),
           (js ''spreadRate'', JString (spreadRate r))].
        is_jsstring (fst kv) \<and> \<not> is_array_index (fst kv) \<and> reads ?f (snd kv)"
      using vals arrs num
      by (simp add: is_jsstring_def is_array_index_def is_digit_def)
  qed
  then show ?thesis by (rule reads_mono) simp
qed

lemma JSON_parse_to_json:
  assumes "spec_valid r" "wellformed r"
  shows "JSON_parse (JSON_stringify (to_json r)) = Some (to_json r)"
proof -
  let ?t = "JSON_stringify (to_json r)"
  have rd: "reads (array_fuel r + 12) (to_json r)"
    using assms by (rule reads_to_json)
  then have "skip_ws (?t @ []) = ?t @ []"
    by (intro skip_ws_not_ws) (simp_all add: reads_def)
  then have skip: "skip_ws ?t = ?t" by simp
  have "length (symptoms r) \<le> length (JSON_stringify (strings (symptoms r)))"
    "length (causes r) \<le> length (JSON_stringify (strings (causes r)))"
    "length (treatment r) \<le> length (JSON_stringify (strings (treatment r)))"
    "length (prevention r) \<le> length (JSON_stringify (strings (prevention r)))"
    "length (affectedParts r) \<le> length (JSON_stringify (strings (affectedParts r)))"
    by (rule length_stringify_strings)+
  then have "array_fuel r + 12 \<le> 2 * length ?t + 2"
    by (simp add: array_fuel_def to_json_def)
  moreover have "after_value []" by (simp add: after_value_def)
  ultimately have "parse_value (2 * length ?t + 2) (?t @ []) = Some (to_json r, [])"
    using rd unfolding reads_def by blast
  then have "parse_value (2 * length ?t + 2) ?t = Some (to_json r, [])" by simp
  moreover have "skip_ws [] = []" by (simp add: skip_ws_def)
  ultimately show ?thesis
    by (simp add: JSON_parse_def skip)
qed

text \<open>
  Claim C8. For every text that is the JSON serialization of a valid analysis record,
  the extraction succeeds in its first step, \<^verbatim>\<open>JSON.parse\<close> of the whole text, and the
  value returned is the record: serializing and then parsing is the identity on valid
  records.
\<close>

theorem serialize_parse_roundtrip:
  assumes "spec_valid r" "wellformed r"
  shows "JSON_parse (JSON_stringify (to_json r)) = Some (to_json r)
     \<and> extract_json (JSON_stringify (to_json r)) = Inr (to_json r)"
  using JSON_parse_to_json [OF assms] by (simp add: extract_json_def)

theorem serialize_parse_roundtrip_witness:
  "spec_valid example_record \<and> wellformed example_record
   \<and> JSON_parse (JSON_stringify (to_json example_record)) = Some (to_json example_record)
   \<and> extract_json (JSON_stringify (to_json example_record)) = Inr (to_json example_record)"
proof -
  have v: "spec_valid example_record" by code_simp
  have w: "wellformed example_record" by code_simp
  from serialize_parse_roundtrip [OF v w] v w show ?thesis by simp
qed

section \<open>The extraction of the edge function\<close>

subsection \<open>No validation\<close>

text \<open>
  Claim C1, as the code has it. The extraction applies no schema check. A reply whose
  whole text is JSON is returned as success with exactly its value, whether or not the
  value satisfies the schema of the analysis record; every value returned as success is
  the JSON value of the whole text, of the interior of the first fenced block, or of the
  span from the first opening brace to the last closing brace; and a failure is the
  \<^verbatim>\<open>SyntaxError\<close> of the step that applied or the error
  \<^verbatim>\<open>Could not extract JSON from response\<close>.
\<close>

theorem extract_json_unvalidated:
  "(JSON_parse content = Some v \<longrightarrow> extract_json content = Inr v)
   \<and> (extract_json content = Inr v \<longrightarrow>
        JSON_parse content = Some v
        \<or> (JSON_parse content = None \<and> (\<exists>i. fence_match content = Some i \<and> JSON_parse i = Some v))
        \<or> (JSON_parse content = None \<and> fence_match content = None
            \<and> (\<exists>sp. object_match content = Some sp \<and> JSON_parse sp = Some v)))
   \<and> (extract_json content = Inl e \<longrightarrow>
        e = SyntaxError \<or> e = Error (js ''Could not extract JSON from response''))"
  by (auto simp add: extract_json_def split: option.splits)

theorem extract_json_unvalidated_witness:
  "JSON_parse out_of_range_reply = Some out_of_range_value
   \<and> extract_json out_of_range_reply = Inr out_of_range_value
   \<and> extract_json (js ''no object here'') = Inl (Error (js ''Could not extract JSON from response''))"
proof -
  have p: "JSON_parse out_of_range_reply = Some out_of_range_value" by code_simp
  have x: "extract_json (js ''no object here'')
      = Inl (Error (js ''Could not extract JSON from response''))"
    by code_simp
  from extract_json_unvalidated [of out_of_range_reply out_of_range_value] p
  have a: "extract_json out_of_range_reply = Inr out_of_range_value" by blast
  show ?thesis by (intro conjI p a x)
qed

text \<open>
  Claim C1 as it is stated fails: the reply \<open>out_of_range_reply\<close> is JSON with a
  confidence of 150, a severity that is not one of the four words and most fields
  missing; the extraction returns its value as success, and the handler answers with
  status 200 and that value.
\<close>

theorem out_of_range_reply_accepted:
  "JSON_parse out_of_range_reply = Some out_of_range_value
   \<and> \<not> spec_schema_ok out_of_range_value
   \<and> extract_json out_of_range_reply = Inr out_of_range_value
   \<and> fst (serve (Some (js ''key'')) (gateway_answering 200 (gateway_body out_of_range_reply))
           example_request)
       = \<lparr>status = 200, payload = Json_text out_of_range_value\<rparr>"
proof -
  have c1: "JSON_parse out_of_range_reply = Some out_of_range_value" by code_simp
  have c2: "\<not> spec_schema_ok out_of_range_value" by code_simp
  have c3: "extract_json out_of_range_reply = Inr out_of_range_value" by code_simp
  have c4: "fst (serve (Some (js ''key'')) (gateway_answering 200 (gateway_body out_of_range_reply))
           example_request)
       = \<lparr>status = 200, payload = Json_text out_of_range_value\<rparr>" by code_simp
  show ?thesis by (intro conjI c1 c2 c3 c4)
qed

subsection \<open>The order of the steps\<close>

text \<open>
  Claim C2, as the code has it. When \<^verbatim>\<open>JSON.parse\<close> of the whole text fails, the failure
  is absorbed and the fenced block is looked for. If there is one, its interior decides
  the outcome: its value on success, a \<^verbatim>\<open>SyntaxError\<close> otherwise, and the span between
  braces is not tried. Only when the text has no fenced block is that span tried, and
  only when there is no such span either is the error
  \<^verbatim>\<open>Could not extract JSON from response\<close> raised.
\<close>

theorem tier_order:
  "JSON_parse content = None \<longrightarrow>
     (\<forall>interior. fence_match content = Some interior \<longrightarrow>
        extract_json content =
          (case JSON_parse interior of Some v \<Rightarrow> Inr v | None \<Rightarrow> Inl SyntaxError))
     \<and> (fence_match content = None \<longrightarrow>
          (\<forall>span. object_match content = Some span \<longrightarrow>
             extract_json content =
               (case JSON_parse span of Some v \<Rightarrow> Inr v | None \<Rightarrow> Inl SyntaxError))
          \<and> (object_match content = None \<longrightarrow>
               extract_json content = Inl (Error (js ''Could not extract JSON from response''))))"
  by (simp add: extract_json_def)

theorem tier_order_witness:
  \<open>JSON_parse unparsable_fence_reply = None
   \<and> fence_match unparsable_fence_reply = Some (js ''not json'')
   \<and> extract_json unparsable_fence_reply = Inl SyntaxError
   \<and> JSON_parse (js ''The result is {"confidence":87}.'') = None
   \<and> fence_match (js ''The result is {"confidence":87}.'') = None
   \<and> extract_json (js ''The result is {"confidence":87}.'')
       = Inr (JObject [(js ''confidence'', JNum 87 0)])\<close>
proof -
  have a1: "JSON_parse unparsable_fence_reply = None" by code_simp
  have a2: "fence_match unparsable_fence_reply = Some (js ''not json'')" by code_simp
  have a3: "JSON_parse (js ''not json'') = None" by code_simp
  have b1: \<open>JSON_parse (js ''The result is {"confidence":87}.'') = None\<close> by code_simp
  have b2: \<open>fence_match (js ''The result is {"confidence":87}.'') = None\<close> by code_simp
  have b3: \<open>object_match (js ''The result is {"confidence":87}.'') = Some (js ''{"confidence":87}'')\<close>
    by code_simp
  have b4: \<open>JSON_parse (js ''{"confidence":87}'') = Some (JObject [(js ''confidence'', JNum 87 0)])\<close>
    by code_simp
  from tier_order [of unparsable_fence_reply] a1 a2
  have "extract_json unparsable_fence_reply
      = (case JSON_parse (js ''not json'') of Some v \<Rightarrow> Inr v | None \<Rightarrow> Inl SyntaxError)"
    by blast
  with a3 have a: "extract_json unparsable_fence_reply = Inl SyntaxError" by simp
  from tier_order [of \<open>js ''The result is {"confidence":87}.''\<close>] b1 b2 b3
  have \<open>extract_json (js ''The result is {"confidence":87}.'')
      = (case JSON_parse (js ''{"confidence":87}'') of Some v \<Rightarrow> Inr v | None \<Rightarrow> Inl SyntaxError)\<close>
    by blast
  with b4 have b: \<open>extract_json (js ''The result is {"confidence":87}.'')
      = Inr (JObject [(js ''confidence'', JNum 87 0)])\<close> by simp
  show ?thesis by (intro conjI a1 a2 a b1 b2 b)
qed

text \<open>
  Claim C2 as it is stated fails: in \<open>unparsable_fence_reply\<close> the whole text is not
  JSON, the interior of the fenced block is not JSON, the span between the braces is
  JSON, and the extraction fails with a \<^verbatim>\<open>SyntaxError\<close>: the third step was not tried.
\<close>

theorem unparsable_fence_stops_extraction:
  \<open>JSON_parse unparsable_fence_reply = None
   \<and> fence_match unparsable_fence_reply = Some (js ''not json'')
   \<and> JSON_parse (js ''not json'') = None
   \<and> object_match unparsable_fence_reply = Some (js ''{"confidence":87}'')
   \<and> JSON_parse (js ''{"confidence":87}'') = Some (JObject [(js ''confidence'', JNum 87 0)])
   \<and> extract_json unparsable_fence_reply = Inl SyntaxError\<close>
  by code_simp

subsection \<open>A record in a fenced block\<close>

lemma is_space_not_backtick: "is_space c \<Longrightarrow> c \<noteq> 0x60"
  by (auto simp add: is_space_def)

lemma starts_with_backticks_append:
  assumes "starts_with backticks (u @ w)" "u \<noteq> []" "last u \<noteq> 0x60"
  shows "starts_with backticks u"
proof (cases u)
  case Nil
  with assms(2) show ?thesis by simp
next
  case u1: (Cons a u1)
  show ?thesis
  proof (cases u1)
    case Nil
    with u1 assms(1,3) show ?thesis by (simp add: starts_with_def)
  next
    case u2: (Cons b u2)
    show ?thesis
    proof (cases u2)
      case Nil
      with u1 u2 assms(1,3) show ?thesis by (simp add: starts_with_def)
    next
      case (Cons c u3)
      with u1 u2 assms(1) show ?thesis by (simp add: starts_with_def)
    qed
  qed
qed

lemma closes_needs_backticks:
  "closes (u @ w) \<Longrightarrow> u \<noteq> [] \<Longrightarrow> \<not> is_space (last u) \<Longrightarrow> last u \<noteq> 0x60 \<Longrightarrow> has_backticks u"
proof (induction u)
  case Nil
  then show ?case by simp
next
  case (Cons c u)
  from Cons.prems(1) consider "starts_with backticks ((c # u) @ w)" | "is_space c" "closes (u @ w)"
    by auto
  then show ?case
  proof cases
    case 1
    then have "starts_with backticks (c # u)"
      using Cons.prems(2,4) by (rule starts_with_backticks_append)
    then show ?thesis by simp
  next
    case 2
    with Cons.prems(3) have "u \<noteq> []" by auto
    with Cons 2 have "has_backticks u" by simp
    then show ?thesis by simp
  qed
qed

lemma lazy_capture_text:
  assumes "\<not> has_backticks u" "u \<noteq> [] \<longrightarrow> \<not> is_space (last u) \<and> last u \<noteq> 0x60" "closes w"
  shows "lazy_capture (u @ w) = Some u"
  using assms
proof (induction u)
  case Nil
  then show ?case by (cases w) simp_all
next
  case (Cons c u)
  have "\<not> closes ((c # u) @ w)"
    using closes_needs_backticks [of "c # u" w] Cons.prems by blast
  moreover have "lazy_capture (u @ w) = Some u"
    using Cons by (cases u) auto
  ultimately show ?case by simp
qed

lemma after_tag_spaces:
  assumes "list_all is_space ws" "t \<noteq> []" "\<not> is_space (hd t)" "lazy_capture (t @ w) = Some g"
  shows "after_tag (ws @ t @ w) = Some g"
  using assms
proof (induction ws)
  case Nil
  then show ?case by (cases t) simp_all
next
  case (Cons c ws)
  then show ?case by simp
qed

lemma closes_spaces: "list_all is_space ws \<Longrightarrow> closes (ws @ backticks @ x)"
  by (induction ws) (simp_all add: starts_with_def)

lemma fence_match_skips:
  assumes "\<not> has_backticks (p @ js ''``'')" "fence_here (backticks @ x) = Some g"
  shows "fence_match (p @ backticks @ x) = Some g"
  using assms
proof (induction p)
  case Nil
  then show ?case by simp
next
  case (Cons c p)
  from Cons.prems(1) have no: "\<not> starts_with backticks (c # p @ js ''``'')"
    and tl: "\<not> has_backticks (p @ js ''``'')"
    by simp_all
  have "starts_with backticks (c # p @ backticks @ x) = starts_with backticks (c # p @ js ''``'')"
  proof (cases p)
    case Nil
    then show ?thesis by (simp add: starts_with_def)
  next
    case p1: (Cons a p1)
    then show ?thesis by (cases p1) (simp_all add: starts_with_def)
  qed
  with no have "\<not> starts_with backticks (c # p @ backticks @ x)" by simp
  then have "fence_here (c # p @ backticks @ x) = None"
    by (simp only: fence_here_def if_False)
  with Cons.IH [OF tl Cons.prems(2)] show ?case by simp
qed

lemma fence_here_text:
  assumes "tag = [] \<or> tag = js ''json''" "list_all is_space ws1" "list_all is_space ws2"
    and "\<not> has_backticks t" "hd t = 0x7B" "last t = 0x7D" "t \<noteq> []"
  shows "fence_here (backticks @ tag @ ws1 @ t @ ws2 @ backticks @ x) = Some t"
proof -
  let ?w = "ws2 @ backticks @ x"
  have hd: "\<not> is_space (hd t)" and lst: "\<not> is_space (last t) \<and> last t \<noteq> 0x60"
    using assms(5,6) by (simp_all add: is_space_def)
  have "closes ?w" using assms(3) by (rule closes_spaces)
  with assms(4) lst have "lazy_capture (t @ ?w) = Some t"
    by (intro lazy_capture_text) simp_all
  with assms(2,7) hd have at: "after_tag (ws1 @ t @ ?w) = Some t"
    by (intro after_tag_spaces)
  from assms(1) show ?thesis
  proof
    assume "tag = js ''json''"
    with at show ?thesis by (simp add: fence_here_def starts_with_def)
  next
    assume tag: "tag = []"
    have "\<not> starts_with (js ''json'') (ws1 @ t @ ?w)"
    proof (cases ws1)
      case Nil
      with assms(5,7) show ?thesis by (cases t) (simp_all add: starts_with_def)
    next
      case (Cons c cs)
      with assms(2) have "is_space c" by simp
      then have "c \<noteq> 0x6A" by (auto simp add: is_space_def)
      with Cons show ?thesis by (simp add: starts_with_def)
    qed
    with at tag show ?thesis by (simp add: fence_here_def starts_with_def)
  qed
qed

lemma to_json_text_shape:
  "hd (JSON_stringify (to_json r)) = 0x7B \<and> last (JSON_stringify (to_json r)) = 0x7D
   \<and> JSON_stringify (to_json r) \<noteq> []"
  by (simp add: to_json_def)

text \<open>
  Claim C9, as the code has it. Take the serialization of a valid analysis record that
  contains no three backticks in a row, put it in a fenced block (optionally tagged
  \<^verbatim>\<open>json\<close>, with white space around the text) whose opening fence is the first three
  backticks of the reply, and let the reply as a whole not be JSON. Then the pattern
  captures exactly the text of the record and the extraction returns the record.
\<close>

theorem fenced_record_extracted:
  assumes "spec_valid r" "wellformed r"
    and "\<not> has_backticks (JSON_stringify (to_json r))"
    and "\<not> has_backticks (prose1 @ js ''``'')"
    and "tag = [] \<or> tag = js ''json''"
    and "list_all is_space ws1" "list_all is_space ws2"
    and "JSON_parse (prose1 @ backticks @ tag @ ws1 @ JSON_stringify (to_json r) @ ws2
           @ backticks @ prose2) = None"
  shows "fence_match (prose1 @ backticks @ tag @ ws1 @ JSON_stringify (to_json r) @ ws2
           @ backticks @ prose2) = Some (JSON_stringify (to_json r))
     \<and> extract_json (prose1 @ backticks @ tag @ ws1 @ JSON_stringify (to_json r) @ ws2
           @ backticks @ prose2) = Inr (to_json r)"
proof -
  let ?t = "JSON_stringify (to_json r)"
  let ?x = "tag @ ws1 @ ?t @ ws2 @ backticks @ prose2"
  have "fence_here (backticks @ ?x) = Some ?t"
    using assms(5,6,7,3) to_json_text_shape [of r] by (intro fence_here_text) simp_all
  with assms(4) have fm: "fence_match (prose1 @ backticks @ ?x) = Some ?t"
    by (rule fence_match_skips)
  moreover have "JSON_parse ?t = Some (to_json r)"
    using assms(1,2) by (rule JSON_parse_to_json)
  ultimately show ?thesis
    using assms(8) by (simp add: extract_json_def)
qed

theorem fenced_record_extracted_witness:
  "fence_match (fenced_reply (JSON_stringify (to_json example_record)))
     = Some (JSON_stringify (to_json example_record))
   \<and> extract_json (fenced_reply (JSON_stringify (to_json example_record)))
     = Inr (to_json example_record)"
proof -
  let ?t = "JSON_stringify (to_json example_record)"
  have v: "spec_valid example_record" by code_simp
  have w: "wellformed example_record" by code_simp
  have n1: "\<not> has_backticks ?t" by code_simp
  have n2: "\<not> has_backticks ((js ''Here you go:'' @ [0x0A]) @ js ''``'')" by code_simp
  have tg: "js ''json'' = [] \<or> js ''json'' = js ''json''" by simp
  have s: "list_all is_space [0x0A]" by code_simp
  have p: "JSON_parse ((js ''Here you go:'' @ [0x0A]) @ backticks @ js ''json'' @ [0x0A] @ ?t
             @ [0x0A] @ backticks @ []) = None"
    by code_simp
  have e: "fenced_reply ?t
      = (js ''Here you go:'' @ [0x0A]) @ backticks @ js ''json'' @ [0x0A] @ ?t @ [0x0A] @ backticks @ []"
    by (simp add: fenced_reply_def)
  from fenced_record_extracted [OF v w n1 n2 tg s s p] show ?thesis
    unfolding e .
qed

text \<open>
  Claim C9 as it is stated fails: \<open>backtick_record\<close> is a valid record whose description
  contains three backticks. Its serialization is JSON, the reply that wraps it in a
  fenced block is not, and the extraction of that reply fails, because the capture ends at
  the backticks inside the description.
\<close>

theorem fenced_backtick_record_rejected:
  "spec_valid backtick_record \<and> wellformed backtick_record
   \<and> JSON_parse (JSON_stringify (to_json backtick_record)) = Some (to_json backtick_record)
   \<and> JSON_parse (fenced_reply (JSON_stringify (to_json backtick_record))) = None
   \<and> extract_json (fenced_reply (JSON_stringify (to_json backtick_record))) = Inl SyntaxError"
proof -
  have c1: "spec_valid backtick_record" by code_simp
  have c2: "wellformed backtick_record" by code_simp
  have c3: "JSON_parse (JSON_stringify (to_json backtick_record)) = Some (to_json backtick_record)"
    by code_simp
  have c4: "JSON_parse (fenced_reply (JSON_stringify (to_json backtick_record))) = None"
    by code_simp
  have c5: "extract_json (fenced_reply (JSON_stringify (to_json backtick_record))) = Inl SyntaxError"
    by code_simp
  show ?thesis by (intro conjI c1 c2 c3 c4 c5)
qed

section \<open>The responses of the edge function\<close>







text \<open>
  Claim C7. When the credential is absent from the configuration (unset or empty), the
  handler sends no request to the gateway, and an analysis request (any body that is JSON
  and not \<^verbatim>\<open>null\<close>) is answered with the error \<^verbatim>\<open>LOVABLE_API_KEY is not configured\<close>;
  every request that is sent carries a credential that is present.
\<close>

theorem no_request_without_credential:
  "(api_key = None \<or> api_key = Some [] \<longrightarrow>
      snd (serve api_key fetch req) = []
      \<and> (http_method req \<noteq> js ''OPTIONS'' \<longrightarrow> JSON_parse (body req) = Some b \<longrightarrow> b \<noteq> JNull \<longrightarrow>
           fst (serve api_key fetch req)
             = error_response 500 ''LOVABLE_API_KEY is not configured''))
   \<and> (\<forall>rq \<in> set (snd (serve api_key fetch req)).
        \<exists>k. api_key = Some k \<and> k \<noteq> [] \<and> authorization rq = js ''Bearer '' @ k)"
  by (auto simp add: serve_def try_block_def build_request_def error_response_def Let_def
        split: option.splits fetch_result.splits sum.splits prod.splits if_splits)

theorem no_request_without_credential_witness:
  "snd (serve None (gateway_answering 200 []) example_request) = []
   \<and> fst (serve None (gateway_answering 200 []) example_request)
       = error_response 500 ''LOVABLE_API_KEY is not configured''
   \<and> snd (serve (Some (js ''key'')) (gateway_answering 200 []) example_request)
       = [build_request (js ''key'') example_request_body]
   \<and> authorization (build_request (js ''key'') example_request_body) = js ''Bearer key''"
proof -
  have m: "http_method example_request \<noteq> js ''OPTIONS''" by code_simp
  have b: "JSON_parse (body example_request) = Some example_request_body" by code_simp
  have n: "example_request_body \<noteq> JNull" by code_simp
  have s: "snd (serve (Some (js ''key'')) (gateway_answering 200 []) example_request)
       = [build_request (js ''key'') example_request_body]"
    by code_simp
  from no_request_without_credential
         [of None "gateway_answering 200 []" example_request example_request_body] m b n
  have r1: "snd (serve None (gateway_answering 200 []) example_request) = []"
    and r2: "fst (serve None (gateway_answering 200 []) example_request)
       = error_response 500 ''LOVABLE_API_KEY is not configured''"
    by simp_all
  from no_request_without_credential
         [of "Some (js ''key'')" "gateway_answering 200 []" example_request example_request_body]
       s
  have r3: "authorization (build_request (js ''key'') example_request_body) = js ''Bearer key''"
    by auto
  show ?thesis by (intro conjI r1 r2 s r3)
qed

section \<open>The download handler of the report\<close>

text \<open>
  Claim C3. When the analysis call of \<^verbatim>\<open>generatePDFInLanguage\<close> returns an error, the
  record and the language held by the component and by the page are after the call what
  they were before it; and whenever they differ after the call, the analysis call
  succeeded and record and language were replaced together, by the data returned and the
  language selected.
\<close>

theorem failed_reanalysis_keeps_session:
  "(invoke env (imagePreview st) selectedLanguage = Invoke_error msg \<longrightarrow>
      session (fst (generatePDFInLanguage env selectedLanguage st)) = session st)
   \<and> (session (fst (generatePDFInLanguage env selectedLanguage st)) \<noteq> session st \<longrightarrow>
        (\<exists>d. invoke env (imagePreview st) selectedLanguage = Invoke_data d
           \<and> session (fst (generatePDFInLanguage env selectedLanguage st))
               = ((d, selectedLanguage), (d, selectedLanguage), imagePreview st)))"
  by (auto simp add: generatePDFInLanguage_def translate_block_def export_block_def session_def
        split: invoke_result.splits)

theorem failed_reanalysis_keeps_session_witness:
  "session (fst (generatePDFInLanguage failing_browser (js ''hi'') example_state))
     = session example_state
   \<and> session (fst (generatePDFInLanguage translating_browser (js ''hi'') example_state))
       \<noteq> session example_state
   \<and> (\<exists>d. session (fst (generatePDFInLanguage translating_browser (js ''hi'') example_state))
            = ((d, js ''hi''), (d, js ''hi''), imagePreview example_state))"
proof -
  have f: "invoke failing_browser (imagePreview example_state) (js ''hi'')
      = Invoke_error (js ''Edge Function returned a non-2xx status code'')"
    by (simp add: failing_browser_def)
  have c: "session (fst (generatePDFInLanguage translating_browser (js ''hi'') example_state))
       \<noteq> session example_state"
    by code_simp
  from failed_reanalysis_keeps_session [of failing_browser example_state "js ''hi''"] f
  have r1: "session (fst (generatePDFInLanguage failing_browser (js ''hi'') example_state))
     = session example_state"
    by blast
  from failed_reanalysis_keeps_session [of translating_browser example_state "js ''hi''"] c
  have r2: "\<exists>d. session (fst (generatePDFInLanguage translating_browser (js ''hi'') example_state))
            = ((d, js ''hi''), (d, js ''hi''), imagePreview example_state)"
    by blast
  show ?thesis by (intro conjI r1 c r2)
qed

text \<open>
  Claim C4. When the language selected is the language held, \<^verbatim>\<open>generatePDFInLanguage\<close>
  makes no analysis call, and the record held is after the call the record held before,
  with the rest of the session.
\<close>

theorem same_language_no_call:
  "selectedLanguage = currentLanguage st \<Longrightarrow>
     analysis_calls (snd (generatePDFInLanguage env selectedLanguage st)) = []
     \<and> session (fst (generatePDFInLanguage env selectedLanguage st)) = session st
     \<and> currentData (fst (generatePDFInLanguage env selectedLanguage st)) = currentData st"
  by (simp add: generatePDFInLanguage_def translate_block_def export_block_def session_def
        analysis_calls_def failure_effects_def)

theorem same_language_no_call_witness:
  "js ''en'' = currentLanguage example_state
   \<and> analysis_calls (snd (generatePDFInLanguage failing_browser (js ''en'') example_state)) = []
   \<and> session (fst (generatePDFInLanguage failing_browser (js ''en'') example_state))
       = session example_state
   \<and> currentData (fst (generatePDFInLanguage failing_browser (js ''en'') example_state))
       = to_json example_record"
proof -
  have l: "js ''en'' = currentLanguage example_state" by (simp add: example_state_def)
  have d: "currentData example_state = to_json example_record" by (simp add: example_state_def)
  from same_language_no_call [OF l, of failing_browser] l d show ?thesis by simp
qed



section \<open>The severity gauge\<close>

lemma getSeverityData_own_or_default:
  "sev \<notin> set Object_prototype \<Longrightarrow>
     getSeverityData sev =
       Number (if sev = js ''low'' then 25
               else if sev = js ''moderate'' then 50
               else if sev = js ''high'' then 75
               else if sev = js ''critical'' then 100
               else 50)"
  by (simp add: getSeverityData_def severityMap_def)

text \<open>
  Claim C10 says that \<^verbatim>\<open>getSeverityData\<close> gives 50 for every string other than the four
  severities. The lookup \<^verbatim>\<open>severityMap[severity]\<close> also finds the members that every
  object inherits, and they are truthy, so \<^verbatim>\<open>|| 50\<close> does not replace them: for the
  string \<^verbatim>\<open>constructor\<close> the result is the inherited member, not 50.
\<close>

theorem getSeverityData_inherited_member:
  "getSeverityData (js ''constructor'') = Inherited (js ''constructor'')"
  by code_simp

end
